theory Spec2Isabelle
  imports Main
begin

section \<open>Go strings\<close>

text \<open>
  A Go \<open>string\<close> and a Go \<open>[]byte\<close> are both sequences of bytes. A HOL \<open>char\<close> is one
  byte, so both are modelled as \<open>string\<close> (\<open>char list\<close>); the conversions
  \<open>string(b)\<close> and \<open>[]byte(s)\<close> of the source are the identity.
\<close>

type_synonym bytes = string

definition HasPrefix :: "string \<Rightarrow> string \<Rightarrow> bool" where
  "HasPrefix s p = (take (length p) s = p)"

definition HasSuffix :: "string \<Rightarrow> string \<Rightarrow> bool" where
  "HasSuffix s p = (length p \<le> length s \<and> drop (length s - length p) s = p)"

text \<open>\<open>strings.TrimPrefix\<close>: the string without the prefix when it has it, else unchanged.\<close>

definition TrimPrefix :: "string \<Rightarrow> string \<Rightarrow> string" where
  "TrimPrefix s p = (if HasPrefix s p then drop (length p) s else s)"

text \<open>\<open>strings.TrimSuffix\<close>: the string without the suffix when it has it, else unchanged.\<close>

definition TrimSuffix :: "string \<Rightarrow> string \<Rightarrow> string" where
  "TrimSuffix s p = (if HasSuffix s p then take (length s - length p) s else s)"

section \<open>The voucher document\<close>

text \<open>
  The structs \<open>Inner\<close> and \<open>OwnershipVoucher\<close> of ownership\_voucher.go. Their JSON
  names are the struct tags, listed with the codec below.
\<close>

record Inner =
  CreatedOn :: string
  ExpiresOn :: string
  SerialNumber :: string
  Assertion :: string
  PinnedDomainCert :: string
  DomainCertRevocationChecks :: bool

record OwnershipVoucher =
  OV :: Inner

text \<open>The zero values: what \<open>OwnershipVoucher{}\<close> is, and what a struct literal gives a field it does not name.\<close>

definition zeroInner :: Inner where
  "zeroInner = \<lparr>CreatedOn = [], ExpiresOn = [], SerialNumber = [], Assertion = [],
     PinnedDomainCert = [], DomainCertRevocationChecks = False\<rparr>"

definition zeroOwnershipVoucher :: OwnershipVoucher where
  "zeroOwnershipVoucher = \<lparr>OV = zeroInner\<rparr>"

section \<open>The Go standard library, as far as the voucher code uses it\<close>

subsection \<open>unicode/utf8\<close>

text \<open>Bytes are compared through their numeric value.\<close>

abbreviation byte :: "char \<Rightarrow> nat" where
  "byte c \<equiv> of_char c"

definition RuneError :: nat where
  "RuneError = 0xFFFD"

text \<open>
  \<open>utf8.DecodeRune\<close>: the first rune of the bytes and its width. An empty input gives
  \<open>(RuneError, 0)\<close>, an invalid encoding \<open>(RuneError, 1)\<close>. The first byte fixes the
  width and the range the second byte must lie in, which excludes overlong forms,
  surrogates and values beyond U+10FFFF.
\<close>

definition DecodeRune :: "bytes \<Rightarrow> nat \<times> nat" where
  "DecodeRune p =
     (if p = [] then (RuneError, 0)
      else let p0 = byte (p ! 0) in
        if p0 < 0x80 then (p0, 1)
        else if p0 < 0xC2 \<or> 0xF4 < p0 then (RuneError, 1)
        else let sz = (if p0 < 0xE0 then 2 else if p0 < 0xF0 then 3 else (4::nat));
                 lo = (if p0 = 0xE0 then 0xA0 else if p0 = 0xF0 then 0x90 else (0x80::nat));
                 hi = (if p0 = 0xED then 0x9F else if p0 = 0xF4 then 0x8F else (0xBF::nat))
          in if length p < sz then (RuneError, 1)
          else let b1 = byte (p ! 1) in
            if b1 < lo \<or> hi < b1 then (RuneError, 1)
            else if sz \<le> 2 then ((p0 mod 32) * 64 + b1 mod 64, 2)
            else let b2 = byte (p ! 2) in
              if b2 < 0x80 \<or> 0xBF < b2 then (RuneError, 1)
              else if sz \<le> 3 then ((p0 mod 16) * 4096 + (b1 mod 64) * 64 + b2 mod 64, 3)
              else let b3 = byte (p ! 3) in
                if b3 < 0x80 \<or> 0xBF < b3 then (RuneError, 1)
                else ((p0 mod 8) * 262144 + (b1 mod 64) * 4096 + (b2 mod 64) * 64 + b3 mod 64, 4))"

text \<open>
  \<open>utf8.EncodeRune\<close> (as \<open>utf8.AppendRune\<close>): surrogates and values beyond U+10FFFF
  are written as U+FFFD.
\<close>

definition EncodeRune :: "nat \<Rightarrow> bytes" where
  "EncodeRune r =
     (if r \<le> 0x7F then [char_of r]
      else if r \<le> 0x7FF then [char_of (0xC0 + r div 64), char_of (0x80 + r mod 64)]
      else let r' = (if 0x10FFFF < r \<or> (0xD800 \<le> r \<and> r \<le> 0xDFFF) then RuneError else r) in
        if r' \<le> 0xFFFF
        then [char_of (0xE0 + r' div 4096), char_of (0x80 + (r' div 64) mod 64),
              char_of (0x80 + r' mod 64)]
        else [char_of (0xF0 + r' div 262144), char_of (0x80 + (r' div 4096) mod 64),
              char_of (0x80 + (r' div 64) mod 64), char_of (0x80 + r' mod 64)])"

text \<open>\<open>utf8.ValidString\<close>: every rune decodes without error.\<close>

fun ValidString :: "string \<Rightarrow> bool" where
  "ValidString [] = True"
| "ValidString (c # cs) =
     (case DecodeRune (c # cs) of (r, w) \<Rightarrow>
        \<not> (r = RuneError \<and> w = 1) \<and> ValidString (drop (w - 1) cs))"

text \<open>
  Each byte that starts no valid rune replaced by the three bytes of U+FFFD, valid runes
  kept: what a string turns into on its way through the JSON encoder and back.
\<close>

fun replaceInvalid :: "string \<Rightarrow> string" where
  "replaceInvalid [] = []"
| "replaceInvalid (c # cs) =
     (case DecodeRune (c # cs) of (r, w) \<Rightarrow>
        if r = RuneError \<and> w = 1 then EncodeRune RuneError @ replaceInvalid cs
        else c # take (w - 1) cs @ replaceInvalid (drop (w - 1) cs))"

subsection \<open>encoding/json: writing a string\<close>

abbreviation dquote :: char where
  "dquote \<equiv> CHR 0x22"

abbreviation backslash :: char where
  "backslash \<equiv> CHR 0x5C"

definition hex :: "nat \<Rightarrow> char" where
  "hex n = ''0123456789abcdef'' ! n"

text \<open>
  \<open>htmlSafeSet\<close>: the ASCII bytes the encoder copies unchanged when HTML escaping is on
  (as it is in \<open>json.Marshal\<close>): the printable ones and DEL, without the double quote,
  the backslash and the three HTML characters.
\<close>

definition htmlSafe :: "nat \<Rightarrow> bool" where
  "htmlSafe b = (0x20 \<le> b \<and> b < 0x80 \<and> b \<noteq> 0x22 \<and> b \<noteq> 0x26 \<and> b \<noteq> 0x3C \<and> b \<noteq> 0x3E \<and> b \<noteq> 0x5C)"

text \<open>
  The escape the encoder writes for an ASCII byte that is not in \<open>htmlSafeSet\<close>, as
  the Go releases up to 1.21 do (the toolchain of the repository's time; later releases
  shorten the escapes of the bytes 0x08 and 0x0C, and the decoder reads both forms).
\<close>

definition escapeByte :: "char \<Rightarrow> bytes" where
  "escapeByte c =
     (if c = backslash \<or> c = dquote then [backslash, c]
      else if c = CHR 0x0A then [backslash, CHR ''n'']
      else if c = CHR 0x0D then [backslash, CHR ''r'']
      else if c = CHR 0x09 then [backslash, CHR ''t'']
      else [backslash, CHR ''u'', CHR ''0'', CHR ''0'', hex (byte c div 16), hex (byte c mod 16)])"

text \<open>
  The loop of the encoder's \<open>appendString\<close>, on the bytes still to be written: an ASCII
  byte is copied or escaped; a byte that starts no valid rune is written as the escape of
  U+FFFD; U+2028 and U+2029 are always escaped; every other rune is copied.
\<close>

fun quoteBody :: "string \<Rightarrow> bytes" where
  "quoteBody [] = []"
| "quoteBody (c # cs) =
     (if byte c < 0x80
      then (if htmlSafe (byte c) then [c] else escapeByte c) @ quoteBody cs
      else (case DecodeRune (c # cs) of (r, w) \<Rightarrow>
        if r = RuneError \<and> w = 1
        then [backslash, CHR ''u'', CHR ''f'', CHR ''f'', CHR ''f'', CHR ''d''] @ quoteBody cs
        else if r = 0x2028 \<or> r = 0x2029
        then [backslash, CHR ''u'', CHR ''2'', CHR ''0'', CHR ''2'', hex (r mod 16)]
               @ quoteBody (drop (w - 1) cs)
        else c # take (w - 1) cs @ quoteBody (drop (w - 1) cs)))"

definition appendString :: "string \<Rightarrow> bytes" where
  "appendString src = [dquote] @ quoteBody src @ [dquote]"

subsection \<open>encoding/json: reading a document\<close>

text \<open>
  \<open>json.Unmarshal\<close> first checks that the whole input is one JSON value (\<open>checkValid\<close>)
  and only then stores it in the destination. The check is modelled by a tokeniser and a
  stack machine that builds the value; the store works on that value.
\<close>

datatype token = LBrace | RBrace | LBrack | RBrack | Colon | Comma
  | TStr string | TNum | TTrue | TFalse | TNull

datatype json = JNull | JBool bool | JNum | JStr string
  | JArr "json list" | JObj "(string \<times> json) list"

definition isSpace :: "char \<Rightarrow> bool" where
  "isSpace c = (c = CHR '' '' \<or> c = CHR 0x09 \<or> c = CHR 0x0D \<or> c = CHR 0x0A)"

definition isDigit :: "char \<Rightarrow> bool" where
  "isDigit c = (0x30 \<le> byte c \<and> byte c \<le> 0x39)"

definition hexVal :: "char \<Rightarrow> nat option" where
  "hexVal c =
     (let b = byte c in
      if 0x30 \<le> b \<and> b \<le> 0x39 then Some (b - 0x30)
      else if 0x61 \<le> b \<and> b \<le> 0x66 then Some (b - 0x61 + 10)
      else if 0x41 \<le> b \<and> b \<le> 0x46 then Some (b - 0x41 + 10)
      else None)"

text \<open>\<open>getu4\<close>: the value of a leading \<open>\uXXXX\<close>, if the bytes start with one.\<close>

definition getu4 :: "bytes \<Rightarrow> nat option" where
  "getu4 s =
     (case s of
        b # u # h1 # h2 # h3 # h4 # _ \<Rightarrow>
          if b = backslash \<and> u = CHR ''u'' then
            (case (hexVal h1, hexVal h2, hexVal h3, hexVal h4) of
               (Some a, Some b, Some c, Some d) \<Rightarrow> Some (a * 4096 + b * 256 + c * 16 + d)
             | _ \<Rightarrow> None)
          else None
      | _ \<Rightarrow> None)"

text \<open>The one-letter escapes the scanner accepts.\<close>

definition unescape :: "char \<Rightarrow> char option" where
  "unescape e =
     (if e = dquote \<or> e = backslash \<or> e = CHR ''/'' then Some e
      else if e = CHR ''b'' then Some (CHR 0x08)
      else if e = CHR ''f'' then Some (CHR 0x0C)
      else if e = CHR ''n'' then Some (CHR 0x0A)
      else if e = CHR ''r'' then Some (CHR 0x0D)
      else if e = CHR ''t'' then Some (CHR 0x09)
      else None)"

definition prepend :: "string \<Rightarrow> (string \<times> bytes) option \<Rightarrow> (string \<times> bytes) option" where
  "prepend xs r = map_option (\<lambda>(s, rest). (xs @ s, rest)) r"

text \<open>
  A string literal from just after its opening quote: the unquoted text (\<open>unquote\<close>) and
  the input after the closing quote, or \<open>None\<close> where the scanner reports a syntax
  error (a control character, an unknown escape, no closing quote). A \<open>\uXXXX\<close> that is
  a high surrogate followed by a low one is one rune; any other surrogate is U+FFFD. A
  byte that starts no valid rune is U+FFFD.
\<close>

fun unquote :: "bytes \<Rightarrow> (string \<times> bytes) option" where
  "unquote [] = None"
| "unquote (c # cs) =
     (if c = dquote then Some ([], cs)
      else if c = backslash then
        (case cs of
           [] \<Rightarrow> None
         | e # es \<Rightarrow>
             if e = CHR ''u'' then
               (case getu4 (c # cs) of
                  None \<Rightarrow> None
                | Some rr \<Rightarrow>
                    if 0xD800 \<le> rr \<and> rr < 0xE000 then
                      (case getu4 (drop 4 es) of
                         None \<Rightarrow> prepend (EncodeRune RuneError) (unquote (drop 4 es))
                       | Some rr1 \<Rightarrow>
                           if rr < 0xDC00 \<and> 0xDC00 \<le> rr1 \<and> rr1 < 0xE000
                           then prepend (EncodeRune ((rr - 0xD800) * 1024 + (rr1 - 0xDC00) + 0x10000))
                                  (unquote (drop 6 (drop 4 es)))
                           else prepend (EncodeRune RuneError) (unquote (drop 4 es)))
                    else prepend (EncodeRune rr) (unquote (drop 4 es)))
             else (case unescape e of
                     None \<Rightarrow> None
                   | Some x \<Rightarrow> prepend [x] (unquote es)))
      else if byte c < 0x20 then None
      else if byte c < 0x80 then prepend [c] (unquote cs)
      else (case DecodeRune (c # cs) of (r, w) \<Rightarrow>
              prepend (EncodeRune r) (unquote (drop (w - 1) cs))))"

text \<open>
  A number literal whose first byte \<open>c\<close> is a minus sign or a digit: the input after it,
  or \<open>None\<close> where the scanner reports a syntax error.
\<close>

definition scanExp :: "bytes \<Rightarrow> bytes option" where
  "scanExp t =
     (case t of
        [] \<Rightarrow> Some t
      | e # u \<Rightarrow>
          if e = CHR ''e'' \<or> e = CHR ''E'' then
            (let v = (case u of [] \<Rightarrow> u
                      | sg # u' \<Rightarrow> if sg = CHR ''+'' \<or> sg = CHR ''-'' then u' else u)
             in case v of [] \<Rightarrow> None
                | d # v' \<Rightarrow> if isDigit d then Some (dropWhile isDigit v') else None)
          else Some t)"

definition scanFrac :: "bytes \<Rightarrow> bytes option" where
  "scanFrac t =
     (case t of
        [] \<Rightarrow> Some t
      | p # u \<Rightarrow>
          if p = CHR ''.'' then
            (case u of [] \<Rightarrow> None
             | d # v \<Rightarrow> if isDigit d then scanExp (dropWhile isDigit v) else None)
          else scanExp t)"

definition scanInt :: "bytes \<Rightarrow> bytes option" where
  "scanInt t =
     (case t of
        [] \<Rightarrow> None
      | d # u \<Rightarrow>
          if d = CHR ''0'' then scanFrac u
          else if isDigit d then scanFrac (dropWhile isDigit u)
          else None)"

definition scanNumber :: "char \<Rightarrow> bytes \<Rightarrow> bytes option" where
  "scanNumber c cs = (if c = CHR ''-'' then scanInt cs else scanInt (c # cs))"

text \<open>
  The tokeniser. White space separates tokens; a string token carries its unquoted text;
  a number token carries nothing, since no field of the voucher is a number.
\<close>

definition consTok :: "token \<Rightarrow> token list option \<Rightarrow> token list option" where
  "consTok t r = map_option ((#) t) r"

function lex :: "bytes \<Rightarrow> token list option" where
  "lex [] = Some []"
| "lex (c # cs) =
     (if isSpace c then lex cs
      else if c = CHR ''{'' then consTok LBrace (lex cs)
      else if c = CHR ''}'' then consTok RBrace (lex cs)
      else if c = CHR ''['' then consTok LBrack (lex cs)
      else if c = CHR '']'' then consTok RBrack (lex cs)
      else if c = CHR '':'' then consTok Colon (lex cs)
      else if c = CHR '','' then consTok Comma (lex cs)
      else if c = dquote then
        (case unquote cs of
           None \<Rightarrow> None
         | Some (s, rest) \<Rightarrow> consTok (TStr s) (lex rest))
      else if c = CHR ''-'' \<or> isDigit c then
        (case scanNumber c cs of
           None \<Rightarrow> None
         | Some rest \<Rightarrow> consTok TNum (lex rest))
      else if c = CHR ''t'' \<and> take 3 cs = ''rue'' then consTok TTrue (lex (drop 3 cs))
      else if c = CHR ''f'' \<and> take 4 cs = ''alse'' then consTok TFalse (lex (drop 4 cs))
      else if c = CHR ''n'' \<and> take 3 cs = ''ull'' then consTok TNull (lex (drop 3 cs))
      else None)"
  by pat_completeness auto
termination
proof -
  have unq: "length rest < length xs" if "unquote xs = Some (s, rest)" for xs s rest
    using that
  proof (induction xs arbitrary: s rest rule: unquote.induct)
    case 1
    then show ?case by simp
  next
    case (2 c cs)
    then show ?case
      apply (auto simp: prepend_def split: if_splits list.splits option.splits prod.splits)
      apply force+
      done
  qed
  have ex: "length rest \<le> length t" if "scanExp t = Some rest" for t rest
    using that length_dropWhile_le [of isDigit]
    by (auto simp: scanExp_def Let_def le_SucI split: list.splits if_splits)
  have fr: "length rest \<le> length t" if "scanFrac t = Some rest" for t rest
  proof (cases t)
    case Nil
    with that show ?thesis by (simp add: scanFrac_def)
  next
    case (Cons p u)
    show ?thesis
    proof (cases "p = CHR ''.''")
      case False
      with that Cons have "scanExp t = Some rest" by (simp add: scanFrac_def)
      then show ?thesis by (rule ex)
    next
      case True
      with that Cons obtain d v where u: "u = d # v" and "scanExp (dropWhile isDigit v) = Some rest"
        by (auto simp: scanFrac_def split: list.splits if_splits)
      then have "length rest \<le> length (dropWhile isDigit v)" using ex by blast
      also have "\<dots> \<le> length v" by (rule length_dropWhile_le)
      finally show ?thesis using Cons u by simp
    qed
  qed
  have it: "length rest < length t" if "scanInt t = Some rest" for t rest
  proof (cases t)
    case Nil
    with that show ?thesis by (simp add: scanInt_def)
  next
    case (Cons d u)
    show ?thesis
    proof (cases "d = CHR ''0''")
      case True
      with that Cons have "scanFrac u = Some rest" by (simp add: scanInt_def)
      then show ?thesis using fr Cons by fastforce
    next
      case False
      with that Cons have "scanFrac (dropWhile isDigit u) = Some rest"
        by (simp add: scanInt_def split: if_splits)
      then have "length rest \<le> length (dropWhile isDigit u)" using fr by blast
      also have "\<dots> \<le> length u" by (rule length_dropWhile_le)
      finally show ?thesis using Cons by simp
    qed
  qed
  have nm: "length rest \<le> length cs" if "scanNumber c cs = Some rest" for c cs rest
    using that it [of cs rest] it [of "c # cs" rest]
    by (auto simp: scanNumber_def split: if_splits)
  show ?thesis
    apply (relation "measure length")
    apply simp_all
    subgoal for c cs x2 x y using unq [of cs x y] by simp
    subgoal for c cs x2 using nm [of c cs x2] by simp
    done
qed

text \<open>
  The value builder: the scanner's states over the tokens, with the stack of open arrays
  and objects. An object frame holds the members read so far and the key whose value is
  awaited; an array frame holds the elements read so far. The scanner refuses to nest
  deeper than \<open>maxNestingDepth\<close>.
\<close>

datatype frame = FObj "(string \<times> json) list" "string option" | FArr "json list"

datatype pstate = BeginValue | BeginValueOrEmpty | BeginStringOrEmpty | BeginString
  | ObjectColon | EndValue | EndTop json

definition maxNestingDepth :: nat where
  "maxNestingDepth = 10000"

text \<open>A value is complete: it is the top-level value, or it goes into the frame on top.\<close>

definition endValue :: "json \<Rightarrow> frame list \<Rightarrow> (pstate \<times> frame list) option" where
  "endValue v st =
     (case st of
        [] \<Rightarrow> Some (EndTop v, [])
      | FObj ms (Some k) # st' \<Rightarrow> Some (EndValue, FObj (ms @ [(k, v)]) None # st')
      | FObj ms None # st' \<Rightarrow> None
      | FArr es # st' \<Rightarrow> Some (EndValue, FArr (es @ [v]) # st'))"

definition pushFrame :: "frame \<Rightarrow> pstate \<Rightarrow> frame list \<Rightarrow> (pstate \<times> frame list) option" where
  "pushFrame f s st = (if length st < maxNestingDepth then Some (s, f # st) else None)"

definition closeFrame :: "frame list \<Rightarrow> (pstate \<times> frame list) option" where
  "closeFrame st =
     (case st of
        FObj ms None # st' \<Rightarrow> endValue (JObj ms) st'
      | FArr es # st' \<Rightarrow> endValue (JArr es) st'
      | _ \<Rightarrow> None)"

definition beginValue :: "frame list \<Rightarrow> token \<Rightarrow> (pstate \<times> frame list) option" where
  "beginValue st t =
     (case t of
        LBrace \<Rightarrow> pushFrame (FObj [] None) BeginStringOrEmpty st
      | LBrack \<Rightarrow> pushFrame (FArr []) BeginValueOrEmpty st
      | TStr s \<Rightarrow> endValue (JStr s) st
      | TNum \<Rightarrow> endValue JNum st
      | TTrue \<Rightarrow> endValue (JBool True) st
      | TFalse \<Rightarrow> endValue (JBool False) st
      | TNull \<Rightarrow> endValue JNull st
      | _ \<Rightarrow> None)"

definition beginString :: "frame list \<Rightarrow> token \<Rightarrow> (pstate \<times> frame list) option" where
  "beginString st t =
     (case (t, st) of
        (TStr k, FObj ms None # st') \<Rightarrow> Some (ObjectColon, FObj ms (Some k) # st')
      | _ \<Rightarrow> None)"

text \<open>One token in one state: the next state and stack, or \<open>None\<close> for a syntax error.\<close>

definition scanStep :: "pstate \<Rightarrow> frame list \<Rightarrow> token \<Rightarrow> (pstate \<times> frame list) option" where
  "scanStep s st t =
     (case s of
        BeginValue \<Rightarrow> beginValue st t
      | BeginValueOrEmpty \<Rightarrow> (if t = RBrack then closeFrame st else beginValue st t)
      | BeginStringOrEmpty \<Rightarrow> (if t = RBrace then closeFrame st else beginString st t)
      | BeginString \<Rightarrow> beginString st t
      | ObjectColon \<Rightarrow> (if t = Colon then Some (BeginValue, st) else None)
      | EndValue \<Rightarrow>
          (case st of
             FObj ms None # _ \<Rightarrow>
               (if t = Comma then Some (BeginString, st)
                else if t = RBrace then closeFrame st else None)
           | FArr es # _ \<Rightarrow>
               (if t = Comma then Some (BeginValue, st)
                else if t = RBrack then closeFrame st else None)
           | _ \<Rightarrow> None)
      | EndTop v \<Rightarrow> None)"

text \<open>At the end of the input the top-level value must be complete.\<close>

fun parseTokens :: "pstate \<Rightarrow> frame list \<Rightarrow> token list \<Rightarrow> json option" where
  "parseTokens s st [] = (case s of EndTop v \<Rightarrow> Some v | _ \<Rightarrow> None)"
| "parseTokens s st (t # ts) =
     (case scanStep s st t of
        None \<Rightarrow> None
      | Some (s', st') \<Rightarrow> parseTokens s' st' ts)"

definition parseJSON :: "bytes \<Rightarrow> json option" where
  "parseJSON data = (case lex data of None \<Rightarrow> None | Some ts \<Rightarrow> parseTokens BeginValue [] ts)"

subsection \<open>encoding/json: storing a document in a voucher\<close>

text \<open>
  The errors of \<open>json.Unmarshal\<close>: a syntax error from the check of the input, or a type
  error, which names the kind of JSON value that did not fit its destination. A type
  error does not stop the decoding: the first one is kept (\<open>saveError\<close>) and returned at
  the end.
\<close>

datatype jsonError = SyntaxError | UnmarshalTypeError string

definition saveError :: "jsonError \<Rightarrow> jsonError option \<Rightarrow> jsonError option" where
  "saveError e saved = (case saved of None \<Rightarrow> Some e | Some e' \<Rightarrow> Some e')"

definition valueKind :: "json \<Rightarrow> string" where
  "valueKind v =
     (case v of JNull \<Rightarrow> ''null'' | JBool b \<Rightarrow> ''bool'' | JNum \<Rightarrow> ''number''
      | JStr s \<Rightarrow> ''string'' | JArr es \<Rightarrow> ''array'' | JObj ms \<Rightarrow> ''object'')"

text \<open>
  A value stored in a string field and in a bool field, with the field's value and the
  saved error before and after: \<open>null\<close> leaves the field as it is, a value of the wrong
  kind is a type error.
\<close>

definition storeString :: "json \<Rightarrow> string \<times> jsonError option \<Rightarrow> string \<times> jsonError option" where
  "storeString v d =
     (case v of
        JStr s \<Rightarrow> (s, snd d)
      | JNull \<Rightarrow> d
      | _ \<Rightarrow> (fst d, saveError (UnmarshalTypeError (valueKind v)) (snd d)))"

definition storeBool :: "json \<Rightarrow> bool \<times> jsonError option \<Rightarrow> bool \<times> jsonError option" where
  "storeBool v d =
     (case v of
        JBool b \<Rightarrow> (b, snd d)
      | JNull \<Rightarrow> d
      | _ \<Rightarrow> (fst d, saveError (UnmarshalTypeError (valueKind v)) (snd d)))"

text \<open>
  An object key names the field whose tag it equals, or else the first field whose tag
  it equals under Unicode simple case folding. The tags here are ASCII, and the only
  runes outside ASCII that fold to an ASCII letter are the Kelvin sign (to K) and the
  long s (to S); every other rune folds to a rune outside ASCII, so it is left as it is.
\<close>

definition foldRune :: "nat \<Rightarrow> nat" where
  "foldRune r =
     (if 0x61 \<le> r \<and> r \<le> 0x7A then r - 0x20
      else if r = 0x212A then 0x4B
      else if r = 0x17F then 0x53
      else r)"

fun foldName :: "bytes \<Rightarrow> bytes" where
  "foldName [] = []"
| "foldName (c # cs) =
     (case DecodeRune (c # cs) of (r, w) \<Rightarrow>
        EncodeRune (foldRune r) @ foldName (drop (w - 1) cs))"

definition findField :: "string list \<Rightarrow> string \<Rightarrow> string option" where
  "findField names key =
     (if key \<in> set names then Some key
      else find (\<lambda>n. foldName n = foldName key) names)"

text \<open>The tags of \<open>Inner\<close>, in the order of its fields, and the store into the field of a tag.\<close>

definition innerFields :: "string list" where
  "innerFields = [''created-on'', ''expires-on'', ''serial-number'', ''assertion'',
     ''pinned-domain-cert'', ''domain-cert-revocation-checks'']"

definition storeInnerField :: "string \<Rightarrow> json \<Rightarrow> Inner \<times> jsonError option \<Rightarrow> Inner \<times> jsonError option" where
  "storeInnerField name v d =
     (let i = fst d; e = snd d in
      if name = ''created-on'' then
        (case storeString v (CreatedOn i, e) of (s, e') \<Rightarrow> (i\<lparr>CreatedOn := s\<rparr>, e'))
      else if name = ''expires-on'' then
        (case storeString v (ExpiresOn i, e) of (s, e') \<Rightarrow> (i\<lparr>ExpiresOn := s\<rparr>, e'))
      else if name = ''serial-number'' then
        (case storeString v (SerialNumber i, e) of (s, e') \<Rightarrow> (i\<lparr>SerialNumber := s\<rparr>, e'))
      else if name = ''assertion'' then
        (case storeString v (Assertion i, e) of (s, e') \<Rightarrow> (i\<lparr>Assertion := s\<rparr>, e'))
      else if name = ''pinned-domain-cert'' then
        (case storeString v (PinnedDomainCert i, e) of (s, e') \<Rightarrow> (i\<lparr>PinnedDomainCert := s\<rparr>, e'))
      else if name = ''domain-cert-revocation-checks'' then
        (case storeBool v (DomainCertRevocationChecks i, e) of
           (b, e') \<Rightarrow> (i\<lparr>DomainCertRevocationChecks := b\<rparr>, e'))
      else d)"

text \<open>
  A value stored in an \<open>Inner\<close>: the members of an object are stored one after the other
  into the struct as it is (a field that no member names keeps its value, a later member
  overwrites an earlier one, an unknown key is skipped); \<open>null\<close> changes nothing; any
  other value is a type error.
\<close>

definition storeInner :: "json \<Rightarrow> Inner \<times> jsonError option \<Rightarrow> Inner \<times> jsonError option" where
  "storeInner v d =
     (case v of
        JObj ms \<Rightarrow>
          foldl (\<lambda>acc (k, x). case findField innerFields k of
                                 None \<Rightarrow> acc
                               | Some name \<Rightarrow> storeInnerField name x acc) d ms
      | JNull \<Rightarrow> d
      | _ \<Rightarrow> (fst d, saveError (UnmarshalTypeError (valueKind v)) (snd d)))"

text \<open>The same for \<open>OwnershipVoucher\<close>, whose one field is an \<open>Inner\<close>.\<close>

definition voucherFields :: "string list" where
  "voucherFields = [''ietf-voucher:voucher'']"

definition storeOwnershipVoucher ::
  "json \<Rightarrow> OwnershipVoucher \<times> jsonError option \<Rightarrow> OwnershipVoucher \<times> jsonError option" where
  "storeOwnershipVoucher v d =
     (case v of
        JObj ms \<Rightarrow>
          foldl (\<lambda>acc (k, x). case findField voucherFields k of
                                 None \<Rightarrow> acc
                               | Some name \<Rightarrow>
                                   (case storeInner x (OV (fst acc), snd acc) of
                                      (i, e') \<Rightarrow> ((fst acc)\<lparr>OV := i\<rparr>, e'))) d ms
      | JNull \<Rightarrow> d
      | _ \<Rightarrow> (fst d, saveError (UnmarshalTypeError (valueKind v)) (snd d)))"

text \<open>
  \<open>json.Unmarshal(data, &ov)\<close>: the syntax check of the whole input, then the store into
  the destination \<open>ov\<close>, then the saved error if there is one. The caller drops the
  destination when an error is returned.
\<close>

definition json_Unmarshal :: "bytes \<Rightarrow> OwnershipVoucher \<Rightarrow> jsonError + OwnershipVoucher" where
  "json_Unmarshal data ov =
     (case parseJSON data of
        None \<Rightarrow> Inl SyntaxError
      | Some v \<Rightarrow>
          (case storeOwnershipVoucher v (ov, None) of
             (ov', None) \<Rightarrow> Inr ov'
           | (ov', Some e) \<Rightarrow> Inl e))"

subsection \<open>encoding/json: writing a voucher\<close>

text \<open>
  \<open>json.Marshal\<close> writes a struct as an object with one member for each field, in the
  order of the fields, without white space: the tag between quotes (the tags here need
  no escape), a colon and the value. It cannot fail on these structs; the error branch
  of the caller is kept.
\<close>

definition fieldName :: "string \<Rightarrow> bytes" where
  "fieldName name = [dquote] @ name @ [dquote] @ '':''"

definition encodeBool :: "bool \<Rightarrow> bytes" where
  "encodeBool b = (if b then ''true'' else ''false'')"

definition encodeInner :: "Inner \<Rightarrow> bytes" where
  "encodeInner i =
     ''{'' @ fieldName ''created-on'' @ appendString (CreatedOn i)
     @ '','' @ fieldName ''expires-on'' @ appendString (ExpiresOn i)
     @ '','' @ fieldName ''serial-number'' @ appendString (SerialNumber i)
     @ '','' @ fieldName ''assertion'' @ appendString (Assertion i)
     @ '','' @ fieldName ''pinned-domain-cert'' @ appendString (PinnedDomainCert i)
     @ '','' @ fieldName ''domain-cert-revocation-checks''
             @ encodeBool (DomainCertRevocationChecks i)
     @ ''}''"

definition json_Marshal :: "OwnershipVoucher \<Rightarrow> jsonError + bytes" where
  "json_Marshal ov = Inr (''{'' @ fieldName ''ietf-voucher:voucher'' @ encodeInner (OV ov) @ ''}'')"

subsection \<open>time\<close>

text \<open>
  A \<open>time.Duration\<close> is a count of nanoseconds. The constants are those of package
  \<open>time\<close>.
\<close>

definition Nanosecond :: int where "Nanosecond = 1"
definition Microsecond :: int where "Microsecond = 1000 * Nanosecond"
definition Millisecond :: int where "Millisecond = 1000 * Microsecond"
definition Second :: int where "Second = 1000 * Millisecond"
definition Minute :: int where "Minute = 60 * Second"
definition Hour :: int where "Hour = 60 * Minute"

text \<open>
  A \<open>time.Time\<close> is kept abstract (a wall-clock reading, a monotonic reading and a
  location). The code uses two of its methods, which are parameters of the model; the
  reading of the clock by \<open>time.Now()\<close> is an argument of \<open>New\<close>.
\<close>

record 'time time_ops =
  Add :: "'time \<Rightarrow> int \<Rightarrow> 'time"
  String :: "'time \<Rightarrow> string"

section \<open>The signed-data library go.mozilla.org/pkcs7\<close>

text \<open>
  The library is not part of the repository. Its operations are parameters of the model,
  collected in a record: building and finishing a signed-data envelope, parsing one,
  the content of a parsed envelope, and the check of its signatures against a
  certificate pool. An operation that returns a Go \<open>error\<close> returns the error's message
  on the left. The setters, which mutate the envelope under construction in Go, return it.
\<close>

datatype oid = OIDDigestAlgorithmSHA256 | OIDEncryptionAlgorithmRSA

record ('cert, 'key, 'pool, 'sd, 'p7) pkcs7 =
  NewSignedData :: "bytes \<Rightarrow> string + 'sd"
  SetDigestAlgorithm :: "'sd \<Rightarrow> oid \<Rightarrow> 'sd"
  SetEncryptionAlgorithm :: "'sd \<Rightarrow> oid \<Rightarrow> 'sd"
  AddSigner :: "'sd \<Rightarrow> 'cert \<Rightarrow> 'key \<Rightarrow> string + 'sd"
  Finish :: "'sd \<Rightarrow> string + bytes"
  Parse :: "bytes \<Rightarrow> string + 'p7"
  Content :: "'p7 \<Rightarrow> bytes"
  VerifyWithChain :: "'p7 \<Rightarrow> 'pool \<Rightarrow> string option"

section \<open>ownership\_voucher.go\<close>

subsection \<open>RemovePemHeaders\<close>

definition pemPrefix :: string where
  "pemPrefix = ''-----BEGIN CERTIFICATE-----'' @ [CHR 0x0A]"

definition pemSuffix :: string where
  "pemSuffix = [CHR 0x0A] @ ''-----END CERTIFICATE-----'' @ [CHR 0x0A]"

definition RemovePemHeaders :: "string \<Rightarrow> string" where
  "RemovePemHeaders pemBlock = TrimSuffix (TrimPrefix pemBlock pemPrefix) pemSuffix"

text \<open>
  The consuming side's re-wrapping: the standard header line and the standard footer
  line, each with its newline, around the stripped text.
\<close>

definition AddPemHeaders :: "string \<Rightarrow> string" where
  "AddPemHeaders body = pemPrefix @ body @ pemSuffix"

text \<open>
  A PEM certificate in the standard framing: the header line, then the base64 text, then
  the footer line, all lines ended by a single line feed. The check is the one the two
  trims make: the header is a prefix, and the footer is a suffix of what follows it.
\<close>

definition wellFormedPem :: "string \<Rightarrow> bool" where
  "wellFormedPem s = (HasPrefix s pemPrefix \<and> HasSuffix (drop (length pemPrefix) s) pemSuffix)"

text \<open>
  What \<open>encoding/pem\<close> writes for a block of type CERTIFICATE without headers whose
  base64 text is the given lines: every line, the footer included, ends with a line feed.
\<close>

definition pemLines :: "string list \<Rightarrow> string" where
  "pemLines ls = concat (map (\<lambda>l. l @ [CHR 0x0A]) ls)"

definition pemEncode :: "string list \<Rightarrow> string" where
  "pemEncode ls = pemPrefix @ pemLines ls @ ''-----END CERTIFICATE-----'' @ [CHR 0x0A]"

subsection \<open>VerifyAndUnmarshal\<close>

text \<open>The four errors of \<open>VerifyAndUnmarshal\<close>, each with the cause it wraps.\<close>

datatype verifyError =
    ErrEmpty
  | ErrParse string
  | ErrUnmarshal jsonError
  | ErrVerify string

definition VerifyAndUnmarshal ::
  "('cert, 'key, 'pool, 'sd, 'p7) pkcs7 \<Rightarrow> bytes \<Rightarrow> 'pool \<Rightarrow> verifyError + OwnershipVoucher" where
  "VerifyAndUnmarshal lib inp certPool =
     (if length inp = 0 then Inl ErrEmpty
      else case Parse lib inp of
        Inl err \<Rightarrow> Inl (ErrParse err)
      | Inr p7 \<Rightarrow>
          (case json_Unmarshal (Content lib p7) zeroOwnershipVoucher of
             Inl err \<Rightarrow> Inl (ErrUnmarshal err)
           | Inr ov \<Rightarrow>
               (case VerifyWithChain lib p7 certPool of
                  Some err \<Rightarrow> Inl (ErrVerify err)
                | None \<Rightarrow> Inr ov)))"

subsection \<open>New\<close>

definition ovExpiry :: int where
  "ovExpiry = Hour * 24 * 365"

text \<open>The struct literal of \<open>New\<close>: the claims that are then encoded and signed.\<close>

definition newVoucher :: "'time time_ops \<Rightarrow> 'time \<Rightarrow> string \<Rightarrow> bytes \<Rightarrow> OwnershipVoucher" where
  "newVoucher tm currentTime serial pdcPem =
     \<lparr>OV = \<lparr>CreatedOn = String tm currentTime,
             ExpiresOn = String tm (Add tm currentTime ovExpiry),
             SerialNumber = serial,
             Assertion = [],
             PinnedDomainCert = RemovePemHeaders pdcPem,
             DomainCertRevocationChecks = False\<rparr>\<rparr>"

text \<open>\<open>New\<close> returns the error of the failing call unchanged.\<close>

datatype newError = ErrMarshal jsonError | ErrPkcs7 string

definition New ::
  "('cert, 'key, 'pool, 'sd, 'p7) pkcs7 \<Rightarrow> 'time time_ops \<Rightarrow> 'time \<Rightarrow> string \<Rightarrow> bytes
     \<Rightarrow> 'cert \<Rightarrow> 'key \<Rightarrow> newError + bytes" where
  "New lib tm currentTime serial pdcPem vendorCACert vendorCAPriv =
     (let ov = newVoucher tm currentTime serial pdcPem in
      case json_Marshal ov of
        Inl err \<Rightarrow> Inl (ErrMarshal err)
      | Inr ovBytes \<Rightarrow>
          (case NewSignedData lib ovBytes of
             Inl err \<Rightarrow> Inl (ErrPkcs7 err)
           | Inr signedMessage \<Rightarrow>
               (let sm1 = SetDigestAlgorithm lib signedMessage OIDDigestAlgorithmSHA256;
                    sm2 = SetEncryptionAlgorithm lib sm1 OIDEncryptionAlgorithmRSA
                in case AddSigner lib sm2 vendorCACert vendorCAPriv of
                     Inl err \<Rightarrow> Inl (ErrPkcs7 err)
                   | Inr sm3 \<Rightarrow>
                       (case Finish lib sm3 of
                          Inl err \<Rightarrow> Inl (ErrPkcs7 err)
                        | Inr out \<Rightarrow> Inr out))))"

section \<open>The server's start-up (main.go)\<close>

text \<open>
  What the start-up code reads from outside is a parameter: the file system
  (\<open>os.ReadFile\<close>, \<open>os.ReadDir\<close>, which lists the entries of a directory by name in
  sorted order), \<open>filepath.Join\<close>, the flag \<open>artifact_dir\<close> and \<open>tls.X509KeyPair\<close>. A
  failing call returns its error message on the left.
\<close>

record 'tls env =
  artifactDirectory :: string
  Join :: "string \<Rightarrow> string \<Rightarrow> string"
  ReadFile :: "string \<Rightarrow> string + bytes"
  ReadDir :: "string \<Rightarrow> string + string list"
  X509KeyPair :: "bytes \<Rightarrow> bytes \<Rightarrow> string + 'tls"

text \<open>The types \<open>service.KeyPair\<close>, \<open>service.OVList\<close> and \<open>service.SecurityArtifacts\<close>.\<close>

record KeyPair =
  Cert :: string
  Key :: string

type_synonym OVList = "string \<rightharpoonup> string"

record 'tls SecurityArtifacts =
  OC :: KeyPair
  PDC :: KeyPair
  VendorCA :: KeyPair
  OVs :: OVList
  TLSKeypair :: 'tls

datatype mainError =
    UnableToReadCert string string
  | UnableToReadKey string string
  | UnableToListFiles string
  | ReadFileError string
  | FoundNoOVs
  | UnableToGenerateTLS string

definition readKeypair :: "'tls env \<Rightarrow> string \<Rightarrow> mainError + KeyPair" where
  "readKeypair e name =
     (case ReadFile e (Join e (artifactDirectory e) (name @ ''_pub.pem'')) of
        Inl err \<Rightarrow> Inl (UnableToReadCert name err)
      | Inr cert \<Rightarrow>
          (case ReadFile e (Join e (artifactDirectory e) (name @ ''_priv.pem'')) of
             Inl err \<Rightarrow> Inl (UnableToReadKey name err)
           | Inr key \<Rightarrow> Inr \<lparr>Cert = cert, Key = key\<rparr>))"

text \<open>The loop of \<open>readOVs\<close> over the directory's entries, with the map built so far.\<close>

fun readOVsLoop :: "'tls env \<Rightarrow> string list \<Rightarrow> OVList \<Rightarrow> mainError + OVList" where
  "readOVsLoop e [] ovs = Inr ovs"
| "readOVsLoop e (f # files) ovs =
     (if HasPrefix f ''ov'' then
        (case ReadFile e (Join e (artifactDirectory e) f) of
           Inl err \<Rightarrow> Inl (ReadFileError err)
         | Inr bytes \<Rightarrow>
             (let trimmed = TrimPrefix f ''ov_'';
                  trimmed = TrimSuffix trimmed ''.txt''
              in readOVsLoop e files (ovs(trimmed \<mapsto> bytes))))
      else readOVsLoop e files ovs)"

definition readOVs :: "'tls env \<Rightarrow> mainError + OVList" where
  "readOVs e =
     (case ReadDir e (artifactDirectory e) of
        Inl err \<Rightarrow> Inl (UnableToListFiles err)
      | Inr files \<Rightarrow>
          (case readOVsLoop e files Map.empty of
             Inl err \<Rightarrow> Inl err
           | Inr ovs \<Rightarrow> if ovs = Map.empty then Inl FoundNoOVs else Inr ovs))"

definition generateServerTlsCert :: "'tls env \<Rightarrow> KeyPair \<Rightarrow> mainError + 'tls" where
  "generateServerTlsCert e pdc =
     (case X509KeyPair e (Cert pdc) (Key pdc) of
        Inl err \<Rightarrow> Inl (UnableToGenerateTLS err)
      | Inr tlsCert \<Rightarrow> Inr tlsCert)"

definition parseSecurityArtifacts :: "'tls env \<Rightarrow> mainError + 'tls SecurityArtifacts" where
  "parseSecurityArtifacts e =
     (case readKeypair e ''oc'' of
        Inl err \<Rightarrow> Inl err
      | Inr oc \<Rightarrow>
     (case readKeypair e ''pdc'' of
        Inl err \<Rightarrow> Inl err
      | Inr pdc \<Rightarrow>
     (case readKeypair e ''vendorca'' of
        Inl err \<Rightarrow> Inl err
      | Inr vendorCA \<Rightarrow>
     (case readOVs e of
        Inl err \<Rightarrow> Inl err
      | Inr ovs \<Rightarrow>
     (case generateServerTlsCert e pdc of
        Inl err \<Rightarrow> Inl err
      | Inr tlsCert \<Rightarrow>
          Inr \<lparr>OC = oc, PDC = pdc, VendorCA = vendorCA, OVs = ovs, TLSKeypair = tlsCert\<rparr>)))))"

section \<open>Auxiliary notions for the statements\<close>

text \<open>A byte that stands for itself inside a JSON string literal.\<close>

definition plain :: "char \<Rightarrow> bool" where
  "plain c = (0x20 \<le> byte c \<and> byte c < 0x80 \<and> c \<noteq> dquote \<and> c \<noteq> backslash)"

text \<open>
  The tokens and the value of the document that \<open>json.Marshal\<close> writes for a voucher, and
  the voucher that \<open>json.Unmarshal\<close> makes of that document: the same voucher, with every
  invalid byte of its strings replaced by U+FFFD.
\<close>

definition marshalTokens :: "OwnershipVoucher \<Rightarrow> token list" where
  "marshalTokens ov =
     [LBrace, TStr ''ietf-voucher:voucher'', Colon,
      LBrace,
      TStr ''created-on'', Colon, TStr (replaceInvalid (CreatedOn (OV ov))), Comma,
      TStr ''expires-on'', Colon, TStr (replaceInvalid (ExpiresOn (OV ov))), Comma,
      TStr ''serial-number'', Colon, TStr (replaceInvalid (SerialNumber (OV ov))), Comma,
      TStr ''assertion'', Colon, TStr (replaceInvalid (Assertion (OV ov))), Comma,
      TStr ''pinned-domain-cert'', Colon, TStr (replaceInvalid (PinnedDomainCert (OV ov))), Comma,
      TStr ''domain-cert-revocation-checks'', Colon,
      (if DomainCertRevocationChecks (OV ov) then TTrue else TFalse),
      RBrace, RBrace]"

definition marshalValue :: "OwnershipVoucher \<Rightarrow> json" where
  "marshalValue ov =
     JObj [(''ietf-voucher:voucher'',
       JObj [(''created-on'', JStr (replaceInvalid (CreatedOn (OV ov)))),
             (''expires-on'', JStr (replaceInvalid (ExpiresOn (OV ov)))),
             (''serial-number'', JStr (replaceInvalid (SerialNumber (OV ov)))),
             (''assertion'', JStr (replaceInvalid (Assertion (OV ov)))),
             (''pinned-domain-cert'', JStr (replaceInvalid (PinnedDomainCert (OV ov)))),
             (''domain-cert-revocation-checks'', JBool (DomainCertRevocationChecks (OV ov)))])]"

definition readBack :: "OwnershipVoucher \<Rightarrow> OwnershipVoucher" where
  "readBack ov =
     \<lparr>OV = \<lparr>CreatedOn = replaceInvalid (CreatedOn (OV ov)),
             ExpiresOn = replaceInvalid (ExpiresOn (OV ov)),
             SerialNumber = replaceInvalid (SerialNumber (OV ov)),
             Assertion = replaceInvalid (Assertion (OV ov)),
             PinnedDomainCert = replaceInvalid (PinnedDomainCert (OV ov)),
             DomainCertRevocationChecks = DomainCertRevocationChecks (OV ov)\<rparr>\<rparr>"










text \<open>Every string of a voucher is valid UTF-8.\<close>

definition validClaims :: "OwnershipVoucher \<Rightarrow> bool" where
  "validClaims ov =
     (ValidString (CreatedOn (OV ov)) \<and> ValidString (ExpiresOn (OV ov))
      \<and> ValidString (SerialNumber (OV ov)) \<and> ValidString (Assertion (OV ov))
      \<and> ValidString (PinnedDomainCert (OV ov)))"

text \<open>
  What the voucher code relies on from the signed-data library: for a certificate and a
  private key that belong together (\<open>goodPair\<close>), signing any content succeeds and gives
  a non-empty envelope that parses, carries that content, and verifies against every
  pool that holds the signer's certificate or an issuer of it (\<open>trusted\<close>).
\<close>

definition signVerifyContract ::
  "('cert, 'key, 'pool, 'sd, 'p7) pkcs7 \<Rightarrow> ('cert \<Rightarrow> 'key \<Rightarrow> bool) \<Rightarrow> ('pool \<Rightarrow> 'cert \<Rightarrow> bool) \<Rightarrow> bool" where
  "signVerifyContract lib goodPair trusted =
     (\<forall>content cert key. goodPair cert key \<longrightarrow>
        (\<exists>sm sm3 out p7.
           NewSignedData lib content = Inr sm
           \<and> AddSigner lib (SetEncryptionAlgorithm lib
                 (SetDigestAlgorithm lib sm OIDDigestAlgorithmSHA256) OIDEncryptionAlgorithmRSA)
                 cert key = Inr sm3
           \<and> Finish lib sm3 = Inr out
           \<and> out \<noteq> []
           \<and> Parse lib out = Inr p7
           \<and> Content lib p7 = content
           \<and> (\<forall>pool. trusted pool cert \<longrightarrow> VerifyWithChain lib p7 pool = None)))"

section \<open>Concrete instances of the parameters\<close>

text \<open>
  A small envelope library without cryptography, to run the model on concrete inputs: a
  certificate is a number below 256, its key is the same number, a pool is a list of
  certificates, and an envelope is the count of signers, the signers, and the content.
\<close>

definition plainEnvelopes :: "(nat, nat, nat list, bytes \<times> nat list, bytes \<times> nat list) pkcs7" where
  "plainEnvelopes =
     \<lparr>NewSignedData = (\<lambda>content. Inr (content, [])),
      SetDigestAlgorithm = (\<lambda>sd alg. sd),
      SetEncryptionAlgorithm = (\<lambda>sd alg. sd),
      AddSigner = (\<lambda>sd cert key.
        if key = cert \<and> cert < 256 then Inr (fst sd, snd sd @ [cert])
        else Inl ''key does not match certificate''),
      Finish = (\<lambda>sd.
        if length (snd sd) < 256 then Inr (char_of (length (snd sd)) # map char_of (snd sd) @ fst sd)
        else Inl ''too many signers''),
      Parse = (\<lambda>bs.
        case bs of
          [] \<Rightarrow> Inl ''no signer count''
        | n # rest \<Rightarrow>
            if byte n \<le> length rest then Inr (drop (byte n) rest, map byte (take (byte n) rest))
            else Inl ''truncated''),
      Content = fst,
      VerifyWithChain = (\<lambda>p7 pool.
        if snd p7 = [] then Some ''no signers''
        else if set (snd p7) \<subseteq> set pool then None
        else Some ''signer not in pool'')\<rparr>"

text \<open>
  For this library, a key belongs to the certificate of the same number, and a pool
  trusts the certificates it lists.
\<close>

definition matchingPair :: "nat \<Rightarrow> nat \<Rightarrow> bool" where
  "matchingPair cert key = (key = cert \<and> cert < 256)"

definition inPool :: "nat list \<Rightarrow> nat \<Rightarrow> bool" where
  "inPool pool cert = (cert \<in> set pool)"

text \<open>A clock that counts nanoseconds and prints a time as a fixed word.\<close>

definition plainClock :: "int time_ops" where
  "plainClock = \<lparr>Add = (\<lambda>t d. t + d), String = (\<lambda>t. if t < ovExpiry then ''early'' else ''late'')\<rparr>"

text \<open>
  A directory given by its files: a name is joined to the directory by a slash, a file
  that is not listed cannot be read, and only the pair of the texts \<open>cert\<close> and \<open>key\<close>
  makes a TLS identity.
\<close>

definition plainDir :: "(string \<times> string) list \<Rightarrow> (string \<times> string) env" where
  "plainDir files =
     \<lparr>artifactDirectory = ''testdata'',
      Join = (\<lambda>d n. d @ ''/'' @ n),
      ReadFile = (\<lambda>p. case map_of (map (\<lambda>(n, c). (''testdata/'' @ n, c)) files) p of
                         None \<Rightarrow> Inl ''no such file'' | Some c \<Rightarrow> Inr c),
      ReadDir = (\<lambda>d. if d = ''testdata'' then Inr (map fst files) else Inl ''no such directory''),
      X509KeyPair = (\<lambda>c k. if c = ''cert'' \<and> k = ''key'' then Inr (c, k)
                             else Inl ''private key does not match public key'')\<rparr>"

text \<open>
  Sample inputs: a voucher, signed vouchers, documents and artifact directories.
\<close>

definition sampleClaims :: OwnershipVoucher where
  "sampleClaims =
     \<lparr>OV = \<lparr>CreatedOn = ''2023-06-01 <10:00>'',
             ExpiresOn = ''2024-05-31 & later'',
             SerialNumber = ''123A'',
             Assertion = [CHR 0xC3, CHR 0xA9, CHR 0x09, CHR 0x22, CHR 0xE2, CHR 0x80, CHR 0xA8],
             PinnedDomainCert = ''MIIB'' @ [CHR 0x0A] @ ''xx=='',
             DomainCertRevocationChecks = True\<rparr>\<rparr>"

definition emptySerialEnvelope :: bytes where
  "emptySerialEnvelope =
     [CHR 0x01, CHR 0x07]
     @ ''{'' @ [dquote] @ ''ietf-voucher:voucher'' @ [dquote] @ '':{''
     @ [dquote] @ ''created-on'' @ [dquote] @ '':'' @ [dquote] @ ''early'' @ [dquote] @ '',''
     @ [dquote] @ ''expires-on'' @ [dquote] @ '':'' @ [dquote] @ ''late'' @ [dquote] @ '',''
     @ [dquote] @ ''serial-number'' @ [dquote] @ '':'' @ [dquote] @ [dquote] @ '',''
     @ [dquote] @ ''assertion'' @ [dquote] @ '':'' @ [dquote] @ [dquote] @ '',''
     @ [dquote] @ ''pinned-domain-cert'' @ [dquote] @ '':'' @ [dquote] @ ''MIIB'' @ [dquote] @ '',''
     @ [dquote] @ ''domain-cert-revocation-checks'' @ [dquote] @ '':false}}''"

definition mismatchedNoOVs :: "(string \<times> string) list" where
  "mismatchedNoOVs =
     [(''oc_priv.pem'', ''key''), (''oc_pub.pem'', ''cert''),
      (''pdc_priv.pem'', ''another key''), (''pdc_pub.pem'', ''cert''),
      (''vendorca_priv.pem'', ''key''), (''vendorca_pub.pem'', ''cert'')]"

definition mismatchedOneOV :: "(string \<times> string) list" where
  "mismatchedOneOV =
     [(''oc_priv.pem'', ''key''), (''oc_pub.pem'', ''cert''),
      (''ov_123A.txt'', ''voucher''),
      (''pdc_priv.pem'', ''another key''), (''pdc_pub.pem'', ''cert''),
      (''vendorca_priv.pem'', ''key''), (''vendorca_pub.pem'', ''cert'')]"

definition matchingOneOV :: "(string \<times> string) list" where
  "matchingOneOV =
     [(''oc_priv.pem'', ''key''), (''oc_pub.pem'', ''cert''),
      (''ov_123A.txt'', ''voucher''),
      (''pdc_priv.pem'', ''key''), (''pdc_pub.pem'', ''cert''),
      (''vendorca_priv.pem'', ''key''), (''vendorca_pub.pem'', ''cert'')]"

definition invalidSerialEnvelope :: bytes where
  "invalidSerialEnvelope =
     [CHR 0x01, CHR 0x07]
     @ ''{'' @ [dquote] @ ''ietf-voucher:voucher'' @ [dquote] @ '':{''
     @ [dquote] @ ''created-on'' @ [dquote] @ '':'' @ [dquote] @ ''early'' @ [dquote] @ '',''
     @ [dquote] @ ''expires-on'' @ [dquote] @ '':'' @ [dquote] @ ''late'' @ [dquote] @ '',''
     @ [dquote] @ ''serial-number'' @ [dquote] @ '':'' @ [dquote]
         @ [backslash] @ ''ufffd'' @ [dquote] @ '',''
     @ [dquote] @ ''assertion'' @ [dquote] @ '':'' @ [dquote] @ [dquote] @ '',''
     @ [dquote] @ ''pinned-domain-cert'' @ [dquote] @ '':'' @ [dquote] @ ''MIIB'' @ [dquote] @ '',''
     @ [dquote] @ ''domain-cert-revocation-checks'' @ [dquote] @ '':false}}''"


definition serialIsNumber :: bytes where
  "serialIsNumber = ''{'' @ fieldName ''ietf-voucher:voucher''
     @ ''{'' @ fieldName ''serial-number'' @ ''1}}''"

definition onlyOC :: "(string \<times> string) list" where
  "onlyOC = [(''oc_priv.pem'', ''key''), (''oc_pub.pem'', ''cert'')]"

definition ocAndPdc :: "(string \<times> string) list" where
  "ocAndPdc =
     [(''oc_priv.pem'', ''key''), (''oc_pub.pem'', ''cert''),
      (''pdc_priv.pem'', ''another key''), (''pdc_pub.pem'', ''cert'')]"

section \<open>Properties of the string helpers\<close>

lemma HasPrefix_append [simp]: "HasPrefix (p @ s) p"
  by (simp add: HasPrefix_def)

lemma HasSuffix_append [simp]: "HasSuffix (s @ p) p"
  by (simp add: HasSuffix_def)

lemma TrimPrefix_append [simp]: "TrimPrefix (p @ s) p = s"
  by (simp add: TrimPrefix_def)

lemma TrimSuffix_append [simp]: "TrimSuffix (s @ p) p = s"
  by (simp add: TrimSuffix_def)

lemma HasPrefix_iff: "HasPrefix s p \<longleftrightarrow> (\<exists>t. s = p @ t)"
proof
  assume "HasPrefix s p"
  then have "s = p @ drop (length p) s"
    by (metis HasPrefix_def append_take_drop_id)
  then show "\<exists>t. s = p @ t" ..
next
  assume "\<exists>t. s = p @ t"
  then show "HasPrefix s p" by auto
qed

lemma HasSuffix_iff: "HasSuffix s p \<longleftrightarrow> (\<exists>t. s = t @ p)"
proof
  assume h: "HasSuffix s p"
  then have "s = take (length s - length p) s @ p"
    by (metis HasSuffix_def append_take_drop_id)
  then show "\<exists>t. s = t @ p" ..
next
  assume "\<exists>t. s = t @ p"
  then show "HasSuffix s p" by auto
qed

lemma TrimPrefix_noop: "\<not> HasPrefix s p \<Longrightarrow> TrimPrefix s p = s"
  by (simp add: TrimPrefix_def)

lemma TrimSuffix_noop: "\<not> HasSuffix s p \<Longrightarrow> TrimSuffix s p = s"
  by (simp add: TrimSuffix_def)

lemma wellFormedPem_iff: "wellFormedPem s \<longleftrightarrow> (\<exists>body. s = pemPrefix @ body @ pemSuffix)"
proof
  assume "wellFormedPem s"
  then obtain t where t: "s = pemPrefix @ t" and "HasSuffix (drop (length pemPrefix) s) pemSuffix"
    by (auto simp: wellFormedPem_def HasPrefix_iff)
  then obtain body where "t = body @ pemSuffix"
    by (auto simp: HasSuffix_iff)
  with t show "\<exists>body. s = pemPrefix @ body @ pemSuffix" by blast
next
  assume "\<exists>body. s = pemPrefix @ body @ pemSuffix"
  then show "wellFormedPem s"
    by (auto simp: wellFormedPem_def)
qed

lemma RemovePemHeaders_framed: "RemovePemHeaders (pemPrefix @ body @ pemSuffix) = body"
  by (simp add: RemovePemHeaders_def)

section \<open>UTF-8 and JSON strings: what the encoder writes, the decoder reads back\<close>

lemma byte_lt_256: "byte c < 256"
  by (cases c) simp

lemma DecodeRune_ascii: "byte c < 0x80 \<Longrightarrow> DecodeRune (c # cs) = (byte c, 1)"
  by (simp add: DecodeRune_def)

lemma DecodeRune_valid_cases:
  assumes "DecodeRune (c # cs) = (r, w)" and "\<not> (r = RuneError \<and> w = 1)"
  shows "(w = 1 \<and> byte c < 0x80 \<and> r = byte c)
    \<or> (\<exists>c1 rest. w = 2 \<and> cs = c1 # rest \<and> 0xC2 \<le> byte c \<and> byte c < 0xE0
          \<and> 0x80 \<le> byte c1 \<and> byte c1 \<le> 0xBF
          \<and> r = (byte c mod 32) * 64 + byte c1 mod 64)
    \<or> (\<exists>c1 c2 rest. w = 3 \<and> cs = c1 # c2 # rest \<and> 0xE0 \<le> byte c \<and> byte c < 0xF0
          \<and> (if byte c = 0xE0 then 0xA0 else 0x80) \<le> byte c1
          \<and> byte c1 \<le> (if byte c = 0xED then 0x9F else 0xBF)
          \<and> 0x80 \<le> byte c2 \<and> byte c2 \<le> 0xBF
          \<and> r = (byte c mod 16) * 4096 + (byte c1 mod 64) * 64 + byte c2 mod 64)
    \<or> (\<exists>c1 c2 c3 rest. w = 4 \<and> cs = c1 # c2 # c3 # rest \<and> 0xF0 \<le> byte c \<and> byte c \<le> 0xF4
          \<and> (if byte c = 0xF0 then 0x90 else 0x80) \<le> byte c1
          \<and> byte c1 \<le> (if byte c = 0xF4 then 0x8F else 0xBF)
          \<and> 0x80 \<le> byte c2 \<and> byte c2 \<le> 0xBF \<and> 0x80 \<le> byte c3 \<and> byte c3 \<le> 0xBF
          \<and> r = (byte c mod 8) * 262144 + (byte c1 mod 64) * 4096 + (byte c2 mod 64) * 64
                  + byte c3 mod 64)"
proof (cases cs)
  case Nil
  with assms show ?thesis
    by (auto simp: DecodeRune_def Let_def split: if_splits)
next
  case c1: (Cons c1 t1)
  show ?thesis
  proof (cases t1)
    case Nil
    with assms c1 show ?thesis
      by (auto simp: DecodeRune_def Let_def split: if_splits)
  next
    case c2: (Cons c2 t2)
    show ?thesis
    proof (cases t2)
      case Nil
      with assms c1 c2 show ?thesis
        by (auto simp: DecodeRune_def Let_def split: if_splits)
    next
      case c3: (Cons c3 t3)
      with assms c1 c2 show ?thesis
        by (auto simp: DecodeRune_def Let_def split: if_splits)
    qed
  qed
qed


lemma char_eq_byte: "byte c = n \<Longrightarrow> char_of n = c"
  by auto

lemma divmod_nat:
  fixes x :: nat
  assumes "a = b * q + x" and "x < b"
  shows "a mod b = x" and "a div b = q"
  using assms by simp_all

lemma byte_offset:
  assumes "lo \<le> byte c"
  obtains x where "byte c = lo + x" and "char_of (lo + x) = c"
proof -
  from assms obtain x where x: "byte c = lo + x" using le_Suc_ex by blast
  then have "char_of (lo + x) = c" by (metis char_of_char)
  with x show ?thesis by (rule that)
qed

lemma enc2:
  assumes "0xC2 \<le> byte c" "byte c < 0xE0" "0x80 \<le> byte c1" "byte c1 \<le> 0xBF"
  shows "EncodeRune ((byte c mod 32) * 64 + byte c1 mod 64) = [c, c1]"
proof -
  obtain x where x: "byte c = 192 + x" "char_of (192 + x) = c"
    using assms(1) byte_offset [of 192 c] by auto
  obtain y where y: "byte c1 = 128 + y" "char_of (128 + y) = c1"
    using assms(3) byte_offset [of 128 c1] by auto
  have hx: "2 \<le> x" "x < 32" and hy: "y < 64" using assms x y by simp_all
  have mx: "byte c mod 32 = x" using x hx by (intro divmod_nat(1) [of _ 32 6]) simp_all
  have my: "byte c1 mod 64 = y" using y hy by (intro divmod_nat(1) [of _ 64 2]) simp_all
  define r where "r = x * 64 + y"
  have d: "r div 64 = x" and m: "r mod 64 = y"
    using hy by (simp_all add: r_def)
  have r: "128 \<le> r" "r \<le> 2047" using hx hy by (simp_all add: r_def)
  have "EncodeRune r = [c, c1]"
    using r d m x y by (simp add: EncodeRune_def)
  then show ?thesis by (simp add: mx my r_def)
qed


lemma enc3:
  assumes "0xE0 \<le> byte c" "byte c < 0xF0"
    and "(if byte c = 0xE0 then 0xA0 else 0x80) \<le> byte c1"
    and "byte c1 \<le> (if byte c = 0xED then 0x9F else 0xBF)"
    and "0x80 \<le> byte c2" "byte c2 \<le> 0xBF"
  shows "EncodeRune ((byte c mod 16) * 4096 + (byte c1 mod 64) * 64 + byte c2 mod 64) = [c, c1, c2]"
proof -
  have lo1: "0x80 \<le> byte c1" using assms(3) by (simp split: if_splits)
  have hi1: "byte c1 \<le> 0xBF" using assms(4) by (simp split: if_splits)
  obtain x where x: "byte c = 224 + x" "char_of (224 + x) = c"
    using assms(1) byte_offset [of 224 c] by auto
  obtain y where y: "byte c1 = 128 + y" "char_of (128 + y) = c1"
    using lo1 byte_offset [of 128 c1] by auto
  obtain z where z: "byte c2 = 128 + z" "char_of (128 + z) = c2"
    using assms(5) byte_offset [of 128 c2] by auto
  have hx: "x < 16" and hy: "y < 64" and hz: "z < 64"
    using assms(2,6) hi1 x y z by simp_all
  have x0: "x = 0 \<Longrightarrow> 32 \<le> y" using assms(3) x y by (simp split: if_splits)
  have x13: "x = 13 \<Longrightarrow> y < 32" using assms(4) x y by (simp split: if_splits)
  have mx: "byte c mod 16 = x" using x hx by (intro divmod_nat(1) [of _ 16 14]) simp_all
  have my: "byte c1 mod 64 = y" using y hy by (intro divmod_nat(1) [of _ 64 2]) simp_all
  have mz: "byte c2 mod 64 = z" using z hz by (intro divmod_nat(1) [of _ 64 2]) simp_all
  define r where "r = x * 4096 + y * 64 + z"
  have d1: "r div 4096 = x"
    using hy hz by (intro divmod_nat(2) [of _ 4096 _ "y * 64 + z"]) (simp_all add: r_def)
  have d2: "r div 64 = x * 64 + y"
    using hz by (intro divmod_nat(2) [of _ 64 _ z]) (simp_all add: r_def)
  have d3: "(r div 64) mod 64 = y"
    unfolding d2 using hy by (intro divmod_nat(1) [of _ 64 x]) simp_all
  have m: "r mod 64 = z"
    using hz by (intro divmod_nat(1) [of _ 64 "x * 64 + y"]) (simp_all add: r_def)
  have lo: "2048 \<le> r" using x0 hx hy hz by (cases "x = 0") (simp_all add: r_def)
  have hi: "r \<le> 65535" using hx hy hz by (simp add: r_def)
  have ns: "\<not> (55296 \<le> r \<and> r \<le> 57343)"
  proof (cases "x = 13")
    case True
    then show ?thesis using x13 hz by (simp add: r_def)
  next
    case False
    then have "x < 13 \<or> 14 \<le> x" by arith
    then show ?thesis using hy hz by (auto simp: r_def)
  qed
  have "EncodeRune r = [c, c1, c2]"
    using lo hi ns d1 d3 m x y z by (auto simp: EncodeRune_def)
  then show ?thesis by (simp add: mx my mz r_def)
qed

lemma enc4:
  assumes "0xF0 \<le> byte c" "byte c \<le> 0xF4"
    and "(if byte c = 0xF0 then 0x90 else 0x80) \<le> byte c1"
    and "byte c1 \<le> (if byte c = 0xF4 then 0x8F else 0xBF)"
    and "0x80 \<le> byte c2" "byte c2 \<le> 0xBF" "0x80 \<le> byte c3" "byte c3 \<le> 0xBF"
  shows "EncodeRune ((byte c mod 8) * 262144 + (byte c1 mod 64) * 4096 + (byte c2 mod 64) * 64
           + byte c3 mod 64) = [c, c1, c2, c3]"
proof -
  have lo1: "0x80 \<le> byte c1" using assms(3) by (simp split: if_splits)
  have hi1: "byte c1 \<le> 0xBF" using assms(4) by (simp split: if_splits)
  obtain x where x: "byte c = 240 + x" "char_of (240 + x) = c"
    using assms(1) byte_offset [of 240 c] by auto
  obtain y where y: "byte c1 = 128 + y" "char_of (128 + y) = c1"
    using lo1 byte_offset [of 128 c1] by auto
  obtain z where z: "byte c2 = 128 + z" "char_of (128 + z) = c2"
    using assms(5) byte_offset [of 128 c2] by auto
  obtain u where u: "byte c3 = 128 + u" "char_of (128 + u) = c3"
    using assms(7) byte_offset [of 128 c3] by auto
  have hx: "x \<le> 4" and hy: "y < 64" and hz: "z < 64" and hu: "u < 64"
    using assms(2,6,8) hi1 x y z u by simp_all
  have x0: "x = 0 \<Longrightarrow> 16 \<le> y" using assms(3) x y by (simp split: if_splits)
  have x4: "x = 4 \<Longrightarrow> y < 16" using assms(4) x y by (simp split: if_splits)
  have mx: "byte c mod 8 = x" using x hx by (intro divmod_nat(1) [of _ 8 30]) simp_all
  have my: "byte c1 mod 64 = y" using y hy by (intro divmod_nat(1) [of _ 64 2]) simp_all
  have mz: "byte c2 mod 64 = z" using z hz by (intro divmod_nat(1) [of _ 64 2]) simp_all
  have mu: "byte c3 mod 64 = u" using u hu by (intro divmod_nat(1) [of _ 64 2]) simp_all
  define r where "r = x * 262144 + y * 4096 + z * 64 + u"
  have d1: "r div 262144 = x"
    using hy hz hu
    by (intro divmod_nat(2) [of _ 262144 _ "y * 4096 + z * 64 + u"]) (simp_all add: r_def)
  have d2: "r div 4096 = x * 64 + y"
    using hz hu by (intro divmod_nat(2) [of _ 4096 _ "z * 64 + u"]) (simp_all add: r_def)
  have d2m: "(r div 4096) mod 64 = y"
    unfolding d2 using hy by (intro divmod_nat(1) [of _ 64 x]) simp_all
  have d3: "r div 64 = (x * 4096 + y * 64) + z"
    using hu by (intro divmod_nat(2) [of _ 64 _ u]) (simp_all add: r_def)
  have d3m: "(r div 64) mod 64 = z"
    unfolding d3 using hz by (intro divmod_nat(1) [of _ 64 "x * 64 + y"]) simp_all
  have m: "r mod 64 = u"
    using hu by (intro divmod_nat(1) [of _ 64 "x * 4096 + y * 64 + z"]) (simp_all add: r_def)
  have lo: "65536 \<le> r" using x0 hy hz hu by (cases "x = 0") (simp_all add: r_def)
  have hi: "r \<le> 1114111"
  proof (cases "x = 4")
    case True
    then show ?thesis using x4 hz hu by (simp add: r_def)
  next
    case False
    then have "x \<le> 3" using hx by simp
    then show ?thesis using hy hz hu by (simp add: r_def)
  qed
  have "EncodeRune r = [c, c1, c2, c3]"
    using lo hi d1 d2m d3m m x y z u by (auto simp: EncodeRune_def)
  then show ?thesis by (simp add: mx my mz mu r_def)
qed

lemma EncodeRune_DecodeRune:
  assumes "DecodeRune (c # cs) = (r, w)" and "\<not> (r = RuneError \<and> w = 1)"
  shows "EncodeRune r = c # take (w - 1) cs"
  using DecodeRune_valid_cases [OF assms]
proof (elim disjE exE conjE)
  assume "w = 1" "byte c < 0x80" "r = byte c"
  then show ?thesis by (simp add: EncodeRune_def)
next
  fix c1 rest
  assume "w = 2" "cs = c1 # rest" "0xC2 \<le> byte c" "byte c < 0xE0" "0x80 \<le> byte c1"
    "byte c1 \<le> 0xBF" "r = (byte c mod 32) * 64 + byte c1 mod 64"
  then show ?thesis using enc2 [of c c1] by simp
next
  fix c1 c2 rest
  assume "w = 3" "cs = c1 # c2 # rest" "0xE0 \<le> byte c" "byte c < 0xF0"
    "(if byte c = 0xE0 then 0xA0 else 0x80) \<le> byte c1"
    "byte c1 \<le> (if byte c = 0xED then 0x9F else 0xBF)"
    "0x80 \<le> byte c2" "byte c2 \<le> 0xBF"
    "r = (byte c mod 16) * 4096 + (byte c1 mod 64) * 64 + byte c2 mod 64"
  then show ?thesis using enc3 [of c c1 c2] by simp
next
  fix c1 c2 c3 rest
  assume "w = 4" "cs = c1 # c2 # c3 # rest" "0xF0 \<le> byte c" "byte c \<le> 0xF4"
    "(if byte c = 0xF0 then 0x90 else 0x80) \<le> byte c1"
    "byte c1 \<le> (if byte c = 0xF4 then 0x8F else 0xBF)"
    "0x80 \<le> byte c2" "byte c2 \<le> 0xBF" "0x80 \<le> byte c3" "byte c3 \<le> 0xBF"
    "r = (byte c mod 8) * 262144 + (byte c1 mod 64) * 4096 + (byte c2 mod 64) * 64
                  + byte c3 mod 64"
  then show ?thesis using enc4 [of c c1 c2 c3] by simp
qed


lemma DecodeRune_width:
  assumes "DecodeRune (c # cs) = (r, w)" and "\<not> (r = RuneError \<and> w = 1)"
  shows "1 \<le> w" and "w - 1 \<le> length cs"
  using DecodeRune_valid_cases [OF assms] by auto

lemma DecodeRune_prefix:
  assumes "DecodeRune (c # cs) = (r, w)" and "\<not> (r = RuneError \<and> w = 1)"
  shows "DecodeRune (c # take (w - 1) cs @ ys) = (r, w)"
  using DecodeRune_valid_cases [OF assms]
  by (elim disjE exE conjE) (auto simp: DecodeRune_def Let_def)

lemma prepend_Some [simp]: "prepend xs (Some (s, rest)) = Some (xs @ s, rest)"
  by (simp add: prepend_def)

lemma prepend_None [simp]: "prepend xs None = None"
  by (simp add: prepend_def)

lemma prepend_prepend [simp]: "prepend xs (prepend ys r) = prepend (xs @ ys) r"
  by (cases r) (auto simp: prepend_def)

lemma not_special:
  assumes "htmlSafe (byte c)"
  shows "c \<noteq> dquote" "c \<noteq> backslash" "\<not> byte c < 0x20" "byte c < 0x80"
  using assms by (auto simp: htmlSafe_def)

lemma unquote_safe:
  assumes "htmlSafe (byte c)"
  shows "unquote (c # xs) = prepend [c] (unquote xs)"
  using not_special [OF assms] by simp

lemma hexVal_hex_all: "list_all (\<lambda>n. hexVal (hex n) = Some n) [0..<16]"
  by (simp add: upt_rec hex_def hexVal_def)

lemma hexVal_hex: "n < 16 \<Longrightarrow> hexVal (hex n) = Some n"
  using hexVal_hex_all by (simp add: list_all_iff)

lemma getu4_u00:
  assumes "byte c < 0x80"
  shows "getu4 (backslash # CHR ''u'' # CHR ''0'' # CHR ''0'' # hex (byte c div 16)
           # hex (byte c mod 16) # xs) = Some (byte c)"
proof -
  have d: "byte c div 16 < 16" using assms by simp
  have 0: "hexVal (CHR ''0'') = Some 0" by (simp add: hexVal_def)
  show ?thesis
    by (simp add: getu4_def 0 hexVal_hex [OF d] hexVal_hex)
qed

lemma unquote_escapeByte:
  assumes "byte c < 0x80" and "\<not> htmlSafe (byte c)"
  shows "unquote (escapeByte c @ xs) = prepend [c] (unquote xs)"
proof -
  consider "c = backslash" | "c = dquote" | "c = CHR 0x0A" | "c = CHR 0x0D" | "c = CHR 0x09"
    | "c \<noteq> backslash" "c \<noteq> dquote" "c \<noteq> CHR 0x0A" "c \<noteq> CHR 0x0D" "c \<noteq> CHR 0x09"
    by blast
  then show ?thesis
  proof cases
    case 6
    have e: "EncodeRune (byte c) = [c]" using assms(1) by (simp add: EncodeRune_def)
    have ns: "\<not> 55296 \<le> byte c" using assms(1) by simp
    show ?thesis
      using 6 ns by (simp add: escapeByte_def getu4_u00 [OF assms(1)] e)
  qed (simp_all add: escapeByte_def unescape_def)
qed


lemma unquote_ufffd:
  "unquote ([backslash, CHR ''u'', CHR ''f'', CHR ''f'', CHR ''f'', CHR ''d''] @ xs)
     = prepend (EncodeRune RuneError) (unquote xs)"
  by (simp add: getu4_def hexVal_def RuneError_def)

lemma unquote_u202:
  assumes "r = 0x2028 \<or> r = 0x2029"
  shows "unquote ([backslash, CHR ''u'', CHR ''2'', CHR ''0'', CHR ''2'', hex (r mod 16)] @ xs)
     = prepend (EncodeRune r) (unquote xs)"
  using assms by (auto simp: getu4_def hexVal_def hex_def)

lemma unquote_rune:
  assumes "\<not> byte c < 0x80" and "DecodeRune (c # cs) = (r, w)" and "\<not> (r = RuneError \<and> w = 1)"
  shows "unquote (c # take (w - 1) cs @ xs) = prepend (c # take (w - 1) cs) (unquote xs)"
proof -
  have c: "c \<noteq> dquote" "c \<noteq> backslash" "\<not> byte c < 0x20"
    using assms(1) by auto
  have len: "length (take (w - 1) cs) = w - 1"
    using DecodeRune_width(2) [OF assms(2,3)] by simp
  show ?thesis
    using c assms(1) len DecodeRune_prefix [OF assms(2,3), of xs]
      EncodeRune_DecodeRune [OF assms(2,3)]
    by simp
qed

lemma unquote_quoteBody:
  "unquote (quoteBody s @ dquote # rest) = Some (replaceInvalid s, rest)"
proof (induction s rule: quoteBody.induct)
  case 1
  show ?case by simp
next
  case (2 c cs)
  let ?tl = "\<lambda>xs. quoteBody xs @ dquote # rest"
  show ?case
  proof (cases "byte c < 0x80")
    case True
    then have ih: "unquote (?tl cs) = Some (replaceInvalid cs, rest)"
      by (rule "2.IH"(1))
    have ri: "replaceInvalid (c # cs) = [c] @ replaceInvalid cs"
      using True by (simp add: DecodeRune_ascii RuneError_def)
    show ?thesis
    proof (cases "htmlSafe (byte c)")
      case safe: True
      have qb: "quoteBody (c # cs) = [c] @ quoteBody cs" using True safe by simp
      have "unquote ([c] @ ?tl cs) = prepend [c] (unquote (?tl cs))"
        using unquote_safe [OF safe] by simp
      then show ?thesis unfolding qb ri ih by simp
    next
      case False
      have qb: "quoteBody (c # cs) = escapeByte c @ quoteBody cs" using True False by simp
      have "unquote (escapeByte c @ ?tl cs) = prepend [c] (unquote (?tl cs))"
        by (rule unquote_escapeByte [OF True False])
      then show ?thesis unfolding qb ri ih by simp
    qed
  next
    case False
    obtain r w where d: "DecodeRune (c # cs) = (r, w)" by (cases "DecodeRune (c # cs)")
    show ?thesis
    proof (cases "r = RuneError \<and> w = 1")
      case True
      then have ih: "unquote (?tl cs) = Some (replaceInvalid cs, rest)"
        using "2.IH"(2) [OF False d [symmetric]] by simp
      have qb: "quoteBody (c # cs)
                  = [backslash, CHR ''u'', CHR ''f'', CHR ''f'', CHR ''f'', CHR ''d''] @ quoteBody cs"
        using False d True by simp
      have ri: "replaceInvalid (c # cs) = EncodeRune RuneError @ replaceInvalid cs"
        using d True by simp
      have "unquote ([backslash, CHR ''u'', CHR ''f'', CHR ''f'', CHR ''f'', CHR ''d''] @ ?tl cs)
              = prepend (EncodeRune RuneError) (unquote (?tl cs))"
        by (rule unquote_ufffd)
      then show ?thesis unfolding qb ri ih by simp
    next
      case valid: False
      let ?cs' = "drop (w - 1) cs"
      have ri: "replaceInvalid (c # cs) = (c # take (w - 1) cs) @ replaceInvalid ?cs'"
        using d valid by auto
      show ?thesis
      proof (cases "r = 0x2028 \<or> r = 0x2029")
        case True
        have ih: "unquote (?tl ?cs') = Some (replaceInvalid ?cs', rest)"
          using "2.IH"(3) [OF False d [symmetric] valid True] .
        have qb: "quoteBody (c # cs)
                    = [backslash, CHR ''u'', CHR ''2'', CHR ''0'', CHR ''2'', hex (r mod 16)]
                        @ quoteBody ?cs'"
          using False d valid True by auto
        have "unquote ([backslash, CHR ''u'', CHR ''2'', CHR ''0'', CHR ''2'', hex (r mod 16)] @ ?tl ?cs')
                = prepend (EncodeRune r) (unquote (?tl ?cs'))"
          by (rule unquote_u202 [OF True])
        then show ?thesis
          unfolding qb ri ih EncodeRune_DecodeRune [OF d valid] by simp
      next
        case other: False
        have ih: "unquote (?tl ?cs') = Some (replaceInvalid ?cs', rest)"
          using "2.IH"(4) [OF False d [symmetric] valid other] .
        have qb: "quoteBody (c # cs) = (c # take (w - 1) cs) @ quoteBody ?cs'"
          using False d valid other by auto
        have "unquote ((c # take (w - 1) cs) @ ?tl ?cs')
                = prepend (c # take (w - 1) cs) (unquote (?tl ?cs'))"
          using unquote_rune [OF False d valid] by simp
        then show ?thesis unfolding qb ri ih by simp
      qed
    qed
  qed
qed

lemma replaceInvalid_valid: "ValidString s \<Longrightarrow> replaceInvalid s = s"
  by (induction s rule: ValidString.induct) (auto split: prod.splits)

section \<open>The document of a voucher, written and read back\<close>

lemma unquote_plain:
  "\<forall>c \<in> set n. plain c \<Longrightarrow> unquote (n @ dquote # rest) = Some (n, rest)"
  by (induction n) (auto simp: plain_def)

lemma consTok_Some [simp]: "consTok t (Some ts) = Some (t # ts)"
  by (simp add: consTok_def)

lemma lex_appendString:
  "lex (appendString s @ rest) = consTok (TStr (replaceInvalid s)) (lex rest)"
  by (simp add: appendString_def isSpace_def unquote_quoteBody)

lemma lex_fieldName:
  assumes "\<forall>c \<in> set n. plain c"
  shows "lex (fieldName n @ rest) = consTok (TStr n) (consTok Colon (lex rest))"
proof -
  have "unquote (n @ dquote # CHR '':'' # rest) = Some (n, CHR '':'' # rest)"
    using assms by (rule unquote_plain)
  then show ?thesis
    by (simp add: fieldName_def isSpace_def)
qed

lemma lex_encodeBool:
  "lex (encodeBool b @ CHR ''}'' # rest) = consTok (if b then TTrue else TFalse) (consTok RBrace (lex rest))"
  by (simp add: encodeBool_def isSpace_def isDigit_def)

lemma lex_open: "lex (CHR ''{'' # rest) = consTok LBrace (lex rest)"
  by (simp add: isSpace_def)

lemma lex_close: "lex (CHR ''}'' # rest) = consTok RBrace (lex rest)"
  by (simp add: isSpace_def)

lemma lex_comma: "lex (CHR '','' # rest) = consTok Comma (lex rest)"
  by (simp add: isSpace_def)

lemma lex_Marshal:
  assumes "json_Marshal ov = Inr bs"
  shows "lex bs = Some (marshalTokens ov)"
proof -
  have bs: "bs = ''{'' @ fieldName ''ietf-voucher:voucher'' @ encodeInner (OV ov) @ ''}''"
    using assms by (simp add: json_Marshal_def)
  show ?thesis
    unfolding bs encodeInner_def marshalTokens_def
    by (simp add: lex_open lex_close lex_comma lex_fieldName lex_appendString lex_encodeBool
        plain_def del: lex.simps(2))
qed


lemma parseTokens_Marshal:
  "parseTokens BeginValue [] (marshalTokens ov) = Some (marshalValue ov)"
  by (simp add: marshalTokens_def marshalValue_def scanStep_def beginValue_def beginString_def
      endValue_def pushFrame_def closeFrame_def maxNestingDepth_def)

lemma parseJSON_Marshal:
  assumes "json_Marshal ov = Inr bs"
  shows "parseJSON bs = Some (marshalValue ov)"
  by (simp add: parseJSON_def lex_Marshal [OF assms] parseTokens_Marshal)

lemma findField_inner:
  "findField innerFields ''created-on'' = Some ''created-on''"
  "findField innerFields ''expires-on'' = Some ''expires-on''"
  "findField innerFields ''serial-number'' = Some ''serial-number''"
  "findField innerFields ''assertion'' = Some ''assertion''"
  "findField innerFields ''pinned-domain-cert'' = Some ''pinned-domain-cert''"
  "findField innerFields ''domain-cert-revocation-checks'' = Some ''domain-cert-revocation-checks''"
  by (simp_all add: findField_def innerFields_def)

lemma findField_voucher:
  "findField voucherFields ''ietf-voucher:voucher'' = Some ''ietf-voucher:voucher''"
  by (simp add: findField_def voucherFields_def)

lemma storeInner_Marshal:
  "storeInner (JObj [(''created-on'', JStr s1), (''expires-on'', JStr s2),
       (''serial-number'', JStr s3), (''assertion'', JStr s4),
       (''pinned-domain-cert'', JStr s5), (''domain-cert-revocation-checks'', JBool b)]) (i, None)
     = (\<lparr>CreatedOn = s1, ExpiresOn = s2, SerialNumber = s3, Assertion = s4,
         PinnedDomainCert = s5, DomainCertRevocationChecks = b\<rparr>, None)"
  by (cases i) (simp add: storeInner_def findField_inner storeInnerField_def storeString_def
      storeBool_def)

lemma storeOwnershipVoucher_Marshal:
  "storeOwnershipVoucher (marshalValue ov) (d, None) = (readBack ov, None)"
  by (cases d) (simp add: storeOwnershipVoucher_def marshalValue_def findField_voucher
      storeInner_Marshal readBack_def)

lemma Unmarshal_Marshal:
  assumes "json_Marshal ov = Inr bs"
  shows "json_Unmarshal bs d = Inr (readBack ov)"
  by (simp add: json_Unmarshal_def parseJSON_Marshal [OF assms] storeOwnershipVoucher_Marshal)

lemma readBack_valid:
  assumes "ValidString (CreatedOn (OV ov))" "ValidString (ExpiresOn (OV ov))"
    "ValidString (SerialNumber (OV ov))" "ValidString (Assertion (OV ov))"
    "ValidString (PinnedDomainCert (OV ov))"
  shows "readBack ov = ov"
  using assms by (simp add: readBack_def replaceInvalid_valid)

section \<open>What a store can report\<close>











section \<open>When a store succeeds, and what it leaves alone\<close>

lemma saveError_Some [simp]: "saveError e saved \<noteq> None"
  by (cases saved) (simp_all add: saveError_def)
















section \<open>The concrete instances, evaluated\<close>

lemma plainEnvelopes_sel [simp]:
  "NewSignedData plainEnvelopes content = Inr (content, [])"
  "SetDigestAlgorithm plainEnvelopes sd alg = sd"
  "SetEncryptionAlgorithm plainEnvelopes sd alg = sd"
  "AddSigner plainEnvelopes sd cert key =
     (if key = cert \<and> cert < 256 then Inr (fst sd, snd sd @ [cert])
      else Inl ''key does not match certificate'')"
  "Finish plainEnvelopes sd =
     (if length (snd sd) < 256 then Inr (char_of (length (snd sd)) # map char_of (snd sd) @ fst sd)
      else Inl ''too many signers'')"
  "Parse plainEnvelopes (n # rest) =
     (if byte n \<le> length rest then Inr (drop (byte n) rest, map byte (take (byte n) rest))
      else Inl ''truncated'')"
  "Content plainEnvelopes p7 = fst p7"
  "VerifyWithChain plainEnvelopes p7 pool =
     (if snd p7 = [] then Some ''no signers''
      else if set (snd p7) \<subseteq> set pool then None
      else Some ''signer not in pool'')"
  by (simp_all add: plainEnvelopes_def)

lemma Unmarshal_array: "json_Unmarshal ''[]'' d = Inl (UnmarshalTypeError ''array'')"
  by (simp add: json_Unmarshal_def parseJSON_def isSpace_def consTok_def scanStep_def
      beginValue_def pushFrame_def maxNestingDepth_def closeFrame_def endValue_def
      storeOwnershipVoucher_def valueKind_def saveError_def)


lemma wellFormedPem_pemEncode: "ls \<noteq> [] \<Longrightarrow> wellFormedPem (pemEncode ls)"
proof -
  assume "ls \<noteq> []"
  then obtain ks l where ls: "ls = ks @ [l]" by (metis rev_exhaust)
  have "pemEncode ls = pemPrefix @ (pemLines ks @ l) @ pemSuffix"
    by (simp add: ls pemEncode_def pemLines_def pemSuffix_def)
  then show ?thesis unfolding wellFormedPem_iff by blast
qed

lemma plainEnvelopes_contract: "signVerifyContract plainEnvelopes matchingPair inPool"
  unfolding signVerifyContract_def
proof (intro allI impI)
  fix content :: bytes and cert key :: nat
  assume "matchingPair cert key"
  then have k: "key = cert" "cert < 256" by (simp_all add: matchingPair_def)
  let ?out = "char_of (Suc 0) # char_of cert # content"
  have 1: "NewSignedData plainEnvelopes content = Inr (content, [])" by simp
  have 2: "AddSigner plainEnvelopes (SetEncryptionAlgorithm plainEnvelopes
             (SetDigestAlgorithm plainEnvelopes (content, []) OIDDigestAlgorithmSHA256)
             OIDEncryptionAlgorithmRSA) cert key = Inr (content, [cert])"
    using k by simp
  have 3: "Finish plainEnvelopes (content, [cert]) = Inr ?out" by simp
  have 4: "?out \<noteq> []" by simp
  have 5: "Parse plainEnvelopes ?out = Inr (content, [cert])" using k by simp
  have 6: "Content plainEnvelopes (content, [cert]) = content" by simp
  have 7: "\<forall>pool. inPool pool cert \<longrightarrow> VerifyWithChain plainEnvelopes (content, [cert]) pool = None"
    by (simp add: inPool_def)
  from 1 2 3 4 5 6 7
  show "\<exists>sm sm3 out p7.
           NewSignedData plainEnvelopes content = Inr sm
           \<and> AddSigner plainEnvelopes (SetEncryptionAlgorithm plainEnvelopes
                 (SetDigestAlgorithm plainEnvelopes sm OIDDigestAlgorithmSHA256) OIDEncryptionAlgorithmRSA)
                 cert key = Inr sm3
           \<and> Finish plainEnvelopes sm3 = Inr out
           \<and> out \<noteq> []
           \<and> Parse plainEnvelopes out = Inr p7
           \<and> Content plainEnvelopes p7 = content
           \<and> (\<forall>pool. inPool pool cert \<longrightarrow> VerifyWithChain plainEnvelopes p7 pool = None)"
    by blast
qed




lemma Marshal_emptySerial:
  "json_Marshal (newVoucher plainClock 0 [] ''MIIB'') = Inr (drop 2 emptySerialEnvelope)"
  by (simp add: json_Marshal_def newVoucher_def plainClock_def ovExpiry_def Hour_def Minute_def
      Second_def Millisecond_def Microsecond_def Nanosecond_def RemovePemHeaders_def
      TrimPrefix_def TrimSuffix_def HasPrefix_def HasSuffix_def pemPrefix_def pemSuffix_def
      encodeInner_def fieldName_def appendString_def encodeBool_def htmlSafe_def
      emptySerialEnvelope_def)

lemma validClaims_emptySerial: "validClaims (newVoucher plainClock 0 [] ''MIIB'')"
  by (simp add: validClaims_def newVoucher_def plainClock_def ovExpiry_def Hour_def Minute_def
      Second_def Millisecond_def Microsecond_def Nanosecond_def RemovePemHeaders_def
      TrimPrefix_def TrimSuffix_def HasPrefix_def HasSuffix_def pemPrefix_def pemSuffix_def
      DecodeRune_def RuneError_def)

lemma plainDir_sel [simp]:
  "artifactDirectory (plainDir files) = ''testdata''"
  "Join (plainDir files) d n = d @ ''/'' @ n"
  "ReadFile (plainDir files) p =
     (case map_of (map (\<lambda>(n, c). (''testdata/'' @ n, c)) files) p of
        None \<Rightarrow> Inl ''no such file'' | Some c \<Rightarrow> Inr c)"
  "ReadDir (plainDir files) d =
     (if d = ''testdata'' then Inr (map fst files) else Inl ''no such directory'')"
  "X509KeyPair (plainDir files) c k =
     (if c = ''cert'' \<and> k = ''key'' then Inr (c, k)
      else Inl ''private key does not match public key'')"
  by (simp_all add: plainDir_def)

lemma readKeypair_mismatchedNoOVs:
  "readKeypair (plainDir mismatchedNoOVs) ''oc'' = Inr \<lparr>Cert = ''cert'', Key = ''key''\<rparr>"
  "readKeypair (plainDir mismatchedNoOVs) ''pdc'' = Inr \<lparr>Cert = ''cert'', Key = ''another key''\<rparr>"
  "readKeypair (plainDir mismatchedNoOVs) ''vendorca'' = Inr \<lparr>Cert = ''cert'', Key = ''key''\<rparr>"
  by (simp_all add: readKeypair_def mismatchedNoOVs_def)

lemma readOVs_mismatchedNoOVs: "readOVs (plainDir mismatchedNoOVs) = Inl FoundNoOVs"
  by (simp add: readOVs_def mismatchedNoOVs_def HasPrefix_def)

lemma readKeypair_mismatchedOneOV:
  "readKeypair (plainDir mismatchedOneOV) ''oc'' = Inr \<lparr>Cert = ''cert'', Key = ''key''\<rparr>"
  "readKeypair (plainDir mismatchedOneOV) ''pdc'' = Inr \<lparr>Cert = ''cert'', Key = ''another key''\<rparr>"
  "readKeypair (plainDir mismatchedOneOV) ''vendorca'' = Inr \<lparr>Cert = ''cert'', Key = ''key''\<rparr>"
  by (simp_all add: readKeypair_def mismatchedOneOV_def)

lemma readOVs_mismatchedOneOV:
  "readOVs (plainDir mismatchedOneOV) = Inr [''123A'' \<mapsto> ''voucher'']"
  by (simp add: readOVs_def mismatchedOneOV_def HasPrefix_def HasSuffix_def TrimPrefix_def
      TrimSuffix_def)

lemma readKeypair_matchingOneOV:
  "readKeypair (plainDir matchingOneOV) ''oc'' = Inr \<lparr>Cert = ''cert'', Key = ''key''\<rparr>"
  "readKeypair (plainDir matchingOneOV) ''pdc'' = Inr \<lparr>Cert = ''cert'', Key = ''key''\<rparr>"
  "readKeypair (plainDir matchingOneOV) ''vendorca'' = Inr \<lparr>Cert = ''cert'', Key = ''key''\<rparr>"
  by (simp_all add: readKeypair_def matchingOneOV_def)

lemma readOVs_matchingOneOV:
  "readOVs (plainDir matchingOneOV) = Inr [''123A'' \<mapsto> ''voucher'']"
  by (simp add: readOVs_def matchingOneOV_def HasPrefix_def HasSuffix_def TrimPrefix_def
      TrimSuffix_def)

lemma parse_matchingOneOV:
  "parseSecurityArtifacts (plainDir matchingOneOV)
     = Inr \<lparr>OC = \<lparr>Cert = ''cert'', Key = ''key''\<rparr>, PDC = \<lparr>Cert = ''cert'', Key = ''key''\<rparr>,
            VendorCA = \<lparr>Cert = ''cert'', Key = ''key''\<rparr>, OVs = [''123A'' \<mapsto> ''voucher''],
            TLSKeypair = (''cert'', ''key'')\<rparr>"
  by (simp add: parseSecurityArtifacts_def readKeypair_matchingOneOV readOVs_matchingOneOV
      generateServerTlsCert_def)

lemmas plain_eval =
  plainClock_def ovExpiry_def Hour_def Minute_def Second_def Millisecond_def Microsecond_def
  Nanosecond_def RemovePemHeaders_def TrimPrefix_def TrimSuffix_def HasPrefix_def HasSuffix_def
  pemPrefix_def pemSuffix_def

lemma char_of_eq_iff: "char_of (n::nat) = c \<longleftrightarrow> n mod 256 = byte c"
  by (metis of_char_eq_iff of_char_of)

lemma Marshal_invalidSerial:
  "json_Marshal (newVoucher plainClock 0 [CHR 0xFF] ''MIIB'') = Inr (drop 2 invalidSerialEnvelope)"
  by (simp add: json_Marshal_def newVoucher_def plain_eval
      encodeInner_def fieldName_def appendString_def encodeBool_def htmlSafe_def
      invalidSerialEnvelope_def DecodeRune_def RuneError_def)

lemma readBack_invalidSerial:
  "readBack (newVoucher plainClock 0 [CHR 0xFF] ''MIIB'')
     = newVoucher plainClock 0 [CHR 0xEF, CHR 0xBF, CHR 0xBD] ''MIIB''"
  by (simp add: readBack_def newVoucher_def plain_eval DecodeRune_def EncodeRune_def RuneError_def
      char_of_eq_iff)

lemma char_of_small: "char_of (Suc 0) = CHR 0x01" "char_of (7::nat) = CHR 0x07"
  by (simp_all add: char_of_eq_iff)

lemma pem_eval:
  "\<not> HasSuffix ''MIIB'' pemSuffix"
  "\<not> HasPrefix (''MIIB'' @ pemSuffix) pemPrefix"
  "\<not> HasPrefix ''MIIB'' pemPrefix"
  by (simp_all add: HasPrefix_def HasSuffix_def pemPrefix_def pemSuffix_def)

lemma RemovePemHeaders_not_a_certificate:
  "RemovePemHeaders ''not a certificate'' = ''not a certificate''"
  by (simp add: RemovePemHeaders_def TrimPrefix_def TrimSuffix_def HasPrefix_def HasSuffix_def
      pemPrefix_def pemSuffix_def)

lemma replaceInvalid_not_a_certificate:
  "replaceInvalid ''not a certificate'' = ''not a certificate''"
  by (rule replaceInvalid_valid) (simp add: DecodeRune_def RuneError_def)

lemmas scan_eval =
  parseJSON_def fieldName_def appendString_def isSpace_def isDigit_def htmlSafe_def
  scanNumber_def scanInt_def scanFrac_def scanExp_def scanStep_def beginValue_def
  beginString_def pushFrame_def maxNestingDepth_def closeFrame_def endValue_def


lemma parseJSON_serialIsNumber:
  "parseJSON serialIsNumber
     = Some (JObj [(''ietf-voucher:voucher'', JObj [(''serial-number'', JNum)])])"
  by (simp add: serialIsNumber_def scan_eval)


lemma Unmarshal_serialIsNumber:
  "json_Unmarshal serialIsNumber zeroOwnershipVoucher = Inl (UnmarshalTypeError ''number'')"
  by (simp add: json_Unmarshal_def parseJSON_serialIsNumber storeOwnershipVoucher_def
      findField_voucher storeInner_def findField_inner storeInnerField_def storeString_def
      valueKind_def saveError_def)



lemma readKeypair_noFiles:
  "readKeypair (plainDir []) ''oc'' = Inl (UnableToReadCert ''oc'' ''no such file'')"
  by (simp add: readKeypair_def)

lemma readKeypair_onlyOC:
  "readKeypair (plainDir onlyOC) ''oc'' = Inr \<lparr>Cert = ''cert'', Key = ''key''\<rparr>"
  "readKeypair (plainDir onlyOC) ''pdc'' = Inl (UnableToReadCert ''pdc'' ''no such file'')"
  by (simp_all add: readKeypair_def onlyOC_def)

lemma readKeypair_ocAndPdc:
  "readKeypair (plainDir ocAndPdc) ''oc'' = Inr \<lparr>Cert = ''cert'', Key = ''key''\<rparr>"
  "readKeypair (plainDir ocAndPdc) ''pdc'' = Inr \<lparr>Cert = ''cert'', Key = ''another key''\<rparr>"
  "readKeypair (plainDir ocAndPdc) ''vendorca''
     = Inl (UnableToReadCert ''vendorca'' ''no such file'')"
  by (simp_all add: readKeypair_def ocAndPdc_def)

section \<open>New and VerifyAndUnmarshal, step by step\<close>

lemma New_Inr_iff:
  "New lib tm currentTime serial pdcPem vendorCACert vendorCAPriv = Inr out \<longleftrightarrow>
     (\<exists>ovBytes sm sm3.
        json_Marshal (newVoucher tm currentTime serial pdcPem) = Inr ovBytes
        \<and> NewSignedData lib ovBytes = Inr sm
        \<and> AddSigner lib (SetEncryptionAlgorithm lib
              (SetDigestAlgorithm lib sm OIDDigestAlgorithmSHA256) OIDEncryptionAlgorithmRSA)
              vendorCACert vendorCAPriv = Inr sm3
        \<and> Finish lib sm3 = Inr out)"
  by (auto simp: New_def Let_def split: sum.splits)

lemma VerifyAndUnmarshal_Inr_iff:
  "VerifyAndUnmarshal lib inp certPool = Inr ov \<longleftrightarrow>
     inp \<noteq> []
     \<and> (\<exists>p7. Parse lib inp = Inr p7
           \<and> json_Unmarshal (Content lib p7) zeroOwnershipVoucher = Inr ov
           \<and> VerifyWithChain lib p7 certPool = None)"
  by (auto simp: VerifyAndUnmarshal_def split: sum.splits option.splits)

lemma sign_then_parse:
  assumes "signVerifyContract lib goodPair trusted" and "goodPair vendorCACert vendorCAPriv"
  shows "\<exists>signed p7 ovBytes.
           New lib tm currentTime serial pdcPem vendorCACert vendorCAPriv = Inr signed
           \<and> signed \<noteq> []
           \<and> Parse lib signed = Inr p7
           \<and> json_Marshal (newVoucher tm currentTime serial pdcPem) = Inr ovBytes
           \<and> Content lib p7 = ovBytes
           \<and> (\<forall>pool. trusted pool vendorCACert \<longrightarrow> VerifyWithChain lib p7 pool = None)"
proof -
  let ?ov = "newVoucher tm currentTime serial pdcPem"
  obtain ovBytes where m: "json_Marshal ?ov = Inr ovBytes" by (simp add: json_Marshal_def)
  from assms obtain sm sm3 out p7 where
    n: "NewSignedData lib ovBytes = Inr sm"
    and a: "AddSigner lib (SetEncryptionAlgorithm lib
               (SetDigestAlgorithm lib sm OIDDigestAlgorithmSHA256) OIDEncryptionAlgorithmRSA)
               vendorCACert vendorCAPriv = Inr sm3"
    and f: "Finish lib sm3 = Inr out"
    and ne: "out \<noteq> []"
    and p: "Parse lib out = Inr p7"
    and c: "Content lib p7 = ovBytes"
    and v: "\<forall>pool. trusted pool vendorCACert \<longrightarrow> VerifyWithChain lib p7 pool = None"
    unfolding signVerifyContract_def by blast
  have "New lib tm currentTime serial pdcPem vendorCACert vendorCAPriv = Inr out"
    unfolding New_Inr_iff using m n a f by blast
  with ne p m c v show ?thesis by blast
qed

lemma sign_then_verify:
  assumes "signVerifyContract lib goodPair trusted" and "goodPair vendorCACert vendorCAPriv"
    and "trusted certPool vendorCACert"
  shows "\<exists>signed.
           New lib tm currentTime serial pdcPem vendorCACert vendorCAPriv = Inr signed
           \<and> VerifyAndUnmarshal lib signed certPool
               = Inr (readBack (newVoucher tm currentTime serial pdcPem))"
proof -
  from sign_then_parse [OF assms(1,2), of tm currentTime serial pdcPem]
  obtain signed p7 ovBytes where
    n: "New lib tm currentTime serial pdcPem vendorCACert vendorCAPriv = Inr signed"
    and ne: "signed \<noteq> []" and p: "Parse lib signed = Inr p7"
    and m: "json_Marshal (newVoucher tm currentTime serial pdcPem) = Inr ovBytes"
    and c: "Content lib p7 = ovBytes"
    and v: "\<forall>pool. trusted pool vendorCACert \<longrightarrow> VerifyWithChain lib p7 pool = None"
    by blast
  have u: "json_Unmarshal (Content lib p7) zeroOwnershipVoucher
             = Inr (readBack (newVoucher tm currentTime serial pdcPem))"
    unfolding c by (rule Unmarshal_Marshal [OF m])
  have "VerifyWithChain lib p7 certPool = None" using v assms(3) by blast
  then have "VerifyAndUnmarshal lib signed certPool
               = Inr (readBack (newVoucher tm currentTime serial pdcPem))"
    unfolding VerifyAndUnmarshal_Inr_iff using ne p u by blast
  with n show ?thesis by blast
qed

lemma replaceInvalid_Nil_iff: "replaceInvalid s = [] \<longleftrightarrow> s = []"
  by (cases s) (auto simp: EncodeRune_def RuneError_def split: prod.splits)

lemma readBack_sel [simp]:
  "SerialNumber (OV (readBack ov)) = replaceInvalid (SerialNumber (OV ov))"
  "PinnedDomainCert (OV (readBack ov)) = replaceInvalid (PinnedDomainCert (OV ov))"
  "CreatedOn (OV (readBack ov)) = replaceInvalid (CreatedOn (OV ov))"
  "ExpiresOn (OV (readBack ov)) = replaceInvalid (ExpiresOn (OV ov))"
  "Assertion (OV (readBack ov)) = replaceInvalid (Assertion (OV ov))"
  "DomainCertRevocationChecks (OV (readBack ov)) = DomainCertRevocationChecks (OV ov)"
  by (simp_all add: readBack_def)

lemma newVoucher_sel [simp]:
  "CreatedOn (OV (newVoucher tm currentTime serial pdcPem)) = String tm currentTime"
  "ExpiresOn (OV (newVoucher tm currentTime serial pdcPem)) = String tm (Add tm currentTime ovExpiry)"
  "SerialNumber (OV (newVoucher tm currentTime serial pdcPem)) = serial"
  "Assertion (OV (newVoucher tm currentTime serial pdcPem)) = []"
  "PinnedDomainCert (OV (newVoucher tm currentTime serial pdcPem)) = RemovePemHeaders pdcPem"
  "DomainCertRevocationChecks (OV (newVoucher tm currentTime serial pdcPem)) = False"
  by (simp_all add: newVoucher_def)

section \<open>The claims\<close>

subsection \<open>The voucher that New builds\<close>



subsection \<open>PEM framing\<close>

text \<open>
  C6. For a PEM certificate in the standard framing, putting the standard header and
  footer lines back around the result of \<open>RemovePemHeaders\<close> gives the original text,
  byte for byte.
\<close>

theorem pem_strip_inverse:
  "wellFormedPem s \<Longrightarrow> AddPemHeaders (RemovePemHeaders s) = s"
proof -
  assume "wellFormedPem s"
  then obtain body where s: "s = pemPrefix @ body @ pemSuffix"
    unfolding wellFormedPem_iff by blast
  show ?thesis
    unfolding s RemovePemHeaders_framed AddPemHeaders_def ..
qed

theorem pem_strip_inverse_witness:
  "wellFormedPem (pemEncode [''MIIB'', ''xx=='']) \<and>
   AddPemHeaders (RemovePemHeaders (pemEncode [''MIIB'', ''xx==''])) = pemEncode [''MIIB'', ''xx=='']"
proof -
  have w: "wellFormedPem (pemEncode [''MIIB'', ''xx==''])"
    by (simp add: wellFormedPem_def pemEncode_def pemLines_def pemPrefix_def pemSuffix_def
        HasPrefix_def HasSuffix_def)
  from w pem_strip_inverse [OF w] show ?thesis by simp
qed

text \<open>
  C7, as the spec states it: the stripping validates the shape of its input and does not
  leave an input without header and footer as it is. The code has no such check: a
  text that is no PEM certificate comes back unchanged and is embedded in the voucher.
\<close>

theorem pem_strip_no_validation_counterexample:
  "\<not> wellFormedPem ''not a certificate''
   \<and> RemovePemHeaders ''not a certificate'' = ''not a certificate''
   \<and> PinnedDomainCert (OV (newVoucher plainClock 0 ''123A'' ''not a certificate''))
       = ''not a certificate''"
  by (simp add: wellFormedPem_def RemovePemHeaders_def TrimPrefix_def TrimSuffix_def
      HasPrefix_def HasSuffix_def pemPrefix_def pemSuffix_def newVoucher_def)

text \<open>
  C7, amended. The stripping is a text transform without validation: it removes the
  header line from an input that begins with it and then the footer line from a rest
  that ends with it, also when only one of the two is there, and an input that has
  neither is returned unchanged. \<open>New\<close> signs the voucher whose pinned domain certificate
  is whatever the transform returns, and with a library that keeps its contract that
  text is what verification hands back.
\<close>

theorem pem_strip_unvalidated:
  "RemovePemHeaders (pemPrefix @ body @ pemSuffix) = body
   \<and> (\<not> HasSuffix t pemSuffix \<longrightarrow> RemovePemHeaders (pemPrefix @ t) = t)
   \<and> (\<not> HasPrefix (t @ pemSuffix) pemPrefix \<longrightarrow> RemovePemHeaders (t @ pemSuffix) = t)
   \<and> (\<not> HasPrefix s pemPrefix \<longrightarrow> \<not> HasSuffix s pemSuffix \<longrightarrow> RemovePemHeaders s = s)
   \<and> (New lib tm currentTime serial s vendorCACert vendorCAPriv = Inr out \<longleftrightarrow>
        (\<exists>ovBytes sm sm3.
           json_Marshal (newVoucher tm currentTime serial s) = Inr ovBytes
           \<and> NewSignedData lib ovBytes = Inr sm
           \<and> AddSigner lib (SetEncryptionAlgorithm lib
                 (SetDigestAlgorithm lib sm OIDDigestAlgorithmSHA256) OIDEncryptionAlgorithmRSA)
                 vendorCACert vendorCAPriv = Inr sm3
           \<and> Finish lib sm3 = Inr out))
   \<and> PinnedDomainCert (OV (newVoucher tm currentTime serial s)) = RemovePemHeaders s
   \<and> (signVerifyContract lib goodPair trusted \<longrightarrow> goodPair vendorCACert vendorCAPriv \<longrightarrow>
        trusted certPool vendorCACert \<longrightarrow>
        (\<exists>signed ov.
           New lib tm currentTime serial s vendorCACert vendorCAPriv = Inr signed
           \<and> VerifyAndUnmarshal lib signed certPool = Inr ov
           \<and> PinnedDomainCert (OV ov) = replaceInvalid (RemovePemHeaders s)))"
proof (intro conjI impI)
  show "New lib tm currentTime serial s vendorCACert vendorCAPriv = Inr out \<longleftrightarrow>
        (\<exists>ovBytes sm sm3.
           json_Marshal (newVoucher tm currentTime serial s) = Inr ovBytes
           \<and> NewSignedData lib ovBytes = Inr sm
           \<and> AddSigner lib (SetEncryptionAlgorithm lib
                 (SetDigestAlgorithm lib sm OIDDigestAlgorithmSHA256) OIDEncryptionAlgorithmRSA)
                 vendorCACert vendorCAPriv = Inr sm3
           \<and> Finish lib sm3 = Inr out)"
    by (rule New_Inr_iff)
next
  assume "signVerifyContract lib goodPair trusted" and "goodPair vendorCACert vendorCAPriv"
    and "trusted certPool vendorCACert"
  from sign_then_verify [OF this, of tm currentTime serial s]
  show "\<exists>signed ov.
           New lib tm currentTime serial s vendorCACert vendorCAPriv = Inr signed
           \<and> VerifyAndUnmarshal lib signed certPool = Inr ov
           \<and> PinnedDomainCert (OV ov) = replaceInvalid (RemovePemHeaders s)"
    by (metis readBack_sel(2) newVoucher_sel(5))
qed (simp_all add: RemovePemHeaders_def TrimPrefix_def TrimSuffix_def)

theorem pem_strip_unvalidated_witness:
  "\<not> HasSuffix ''MIIB'' pemSuffix
   \<and> RemovePemHeaders (pemPrefix @ ''MIIB'') = ''MIIB''
   \<and> \<not> HasPrefix (''MIIB'' @ pemSuffix) pemPrefix
   \<and> RemovePemHeaders (''MIIB'' @ pemSuffix) = ''MIIB''
   \<and> \<not> HasPrefix ''MIIB'' pemPrefix
   \<and> RemovePemHeaders ''MIIB'' = ''MIIB''
   \<and> signVerifyContract plainEnvelopes matchingPair inPool \<and> matchingPair 7 7 \<and> inPool [7] 7
   \<and> (\<exists>signed ov.
         New plainEnvelopes plainClock 0 ''123A'' ''not a certificate'' 7 7 = Inr signed
         \<and> VerifyAndUnmarshal plainEnvelopes signed [7] = Inr ov
         \<and> PinnedDomainCert (OV ov) = ''not a certificate'')"
proof -
  have p: "matchingPair 7 7" by (simp add: matchingPair_def)
  have t: "inPool [7] 7" by (simp add: inPool_def)
  note a = pem_strip_unvalidated [where t = "''MIIB''" and s = "''MIIB''" and body = "[]"
      and lib = plainEnvelopes and tm = plainClock and currentTime = 0 and serial = "''123A''"
      and vendorCACert = 7 and vendorCAPriv = 7 and out = "[]" and goodPair = matchingPair
      and trusted = inPool and certPool = "[7]"]
  note b = pem_strip_unvalidated [where t = "''MIIB''" and s = "''not a certificate''"
      and body = "[]" and lib = plainEnvelopes and tm = plainClock and currentTime = 0
      and serial = "''123A''" and vendorCACert = 7 and vendorCAPriv = 7 and out = "[]"
      and goodPair = matchingPair and trusted = inPool and certPool = "[7]"]
  have 1: "RemovePemHeaders (pemPrefix @ ''MIIB'') = ''MIIB''" using a pem_eval(1) by blast
  have 2: "RemovePemHeaders (''MIIB'' @ pemSuffix) = ''MIIB''" using a pem_eval(2) by blast
  have 3: "RemovePemHeaders ''MIIB'' = ''MIIB''" using a pem_eval(1,3) by blast
  have 4: "\<exists>signed ov.
         New plainEnvelopes plainClock 0 ''123A'' ''not a certificate'' 7 7 = Inr signed
         \<and> VerifyAndUnmarshal plainEnvelopes signed [7] = Inr ov
         \<and> PinnedDomainCert (OV ov) = ''not a certificate''"
    using b plainEnvelopes_contract p t
    unfolding RemovePemHeaders_not_a_certificate replaceInvalid_not_a_certificate by blast
  from pem_eval 1 2 3 plainEnvelopes_contract p t 4 show ?thesis by blast
qed

subsection \<open>Verification\<close>

text \<open>
  C10. For an input that parses as an envelope, the embedded content is unmarshalled
  before any signature is checked: when the content is no valid claims document, the
  result is the unmarshalling error, whatever the check of the signatures would say.
\<close>

theorem unmarshal_error_before_verification:
  assumes "inp \<noteq> []" and "Parse lib inp = Inr p7"
    and "json_Unmarshal (Content lib p7) zeroOwnershipVoucher = Inl err"
  shows "VerifyAndUnmarshal (lib\<lparr>VerifyWithChain := v\<rparr>) inp certPool = Inl (ErrUnmarshal err)"
  using assms by (simp add: VerifyAndUnmarshal_def)

theorem unmarshal_error_before_verification_witness:
  "VerifyAndUnmarshal (plainEnvelopes\<lparr>VerifyWithChain := (\<lambda>p7 pool. None)\<rparr>)
     ([CHR 0x01, CHR 0x07] @ ''[]'') [7::nat] = Inl (ErrUnmarshal (UnmarshalTypeError ''array''))
   \<and> VerifyAndUnmarshal (plainEnvelopes\<lparr>VerifyWithChain := (\<lambda>p7 pool. Some ''bad signature'')\<rparr>)
     ([CHR 0x01, CHR 0x07] @ ''[]'') [7::nat] = Inl (ErrUnmarshal (UnmarshalTypeError ''array''))"
proof -
  let ?inp = "[CHR 0x01, CHR 0x07] @ ''[]''"
  have 1: "?inp \<noteq> []" by simp
  have 2: "Parse plainEnvelopes ?inp = Inr (''[]'', [7])" by simp
  have 3: "json_Unmarshal (Content plainEnvelopes (''[]'', [7::nat])) zeroOwnershipVoucher
             = Inl (UnmarshalTypeError ''array'')"
    by (simp add: Unmarshal_array)
  show ?thesis
    using unmarshal_error_before_verification [OF 1 2 3, of "\<lambda>p7 pool. None" "[7]"]
      unmarshal_error_before_verification [OF 1 2 3, of "\<lambda>p7 pool. Some ''bad signature''" "[7]"]
    by simp
qed




text \<open>
  C8, as the spec states it: the serial number of every voucher that is signed, and of
  every voucher that verification returns, is non-empty. Neither function checks it:
  \<open>New\<close> signs a voucher for the empty serial, and verification returns it.
\<close>

theorem serial_may_be_empty_counterexample:
  "New plainEnvelopes plainClock 0 [] ''MIIB'' 7 7 = Inr emptySerialEnvelope
   \<and> VerifyAndUnmarshal plainEnvelopes emptySerialEnvelope [7]
       = Inr (newVoucher plainClock 0 [] ''MIIB'')
   \<and> SerialNumber (OV (newVoucher plainClock 0 [] ''MIIB'')) = []"
proof -
  let ?ov = "newVoucher plainClock 0 [] ''MIIB''"
  have e: "emptySerialEnvelope = [CHR 0x01, CHR 0x07] @ drop 2 emptySerialEnvelope"
    by (simp add: emptySerialEnvelope_def)
  have "byte (char_of (Suc 0)) = byte (CHR 0x01)" "byte (char_of (7::nat)) = byte (CHR 0x07)"
    by simp_all
  then have "char_of (Suc 0) = CHR 0x01" "char_of (7::nat) = CHR 0x07"
    unfolding of_char_eq_iff by simp_all
  then have n: "New plainEnvelopes plainClock 0 [] ''MIIB'' 7 7 = Inr emptySerialEnvelope"
    by (subst e) (simp add: New_def Marshal_emptySerial)
  have "readBack ?ov = ?ov"
    using validClaims_emptySerial by (intro readBack_valid) (simp_all add: validClaims_def)
  then have u: "json_Unmarshal (drop 2 emptySerialEnvelope) zeroOwnershipVoucher = Inr ?ov"
    using Unmarshal_Marshal [OF Marshal_emptySerial] by simp
  have v: "VerifyAndUnmarshal plainEnvelopes emptySerialEnvelope [7] = Inr ?ov"
    by (subst e) (simp add: VerifyAndUnmarshal_def u)
  from n v show ?thesis by (simp add: newVoucher_def)
qed

text \<open>
  C8, amended. \<open>New\<close> signs, for any serial, the voucher whose serial number is the serial
  given by the caller. Verification succeeds exactly when the input is a non-empty
  envelope whose content \<open>json.Unmarshal\<close> accepts and whose signatures the library
  accepts, and it returns the decoded voucher: nothing looks at the serial. With a
  library that keeps its contract, the serial that comes back is empty exactly when
  the serial given to \<open>New\<close> was.
\<close>

theorem serial_is_the_callers:
  "(New lib tm currentTime serial pdcPem vendorCACert vendorCAPriv = Inr out \<longleftrightarrow>
      (\<exists>ovBytes sm sm3.
         json_Marshal (newVoucher tm currentTime serial pdcPem) = Inr ovBytes
         \<and> NewSignedData lib ovBytes = Inr sm
         \<and> AddSigner lib (SetEncryptionAlgorithm lib
               (SetDigestAlgorithm lib sm OIDDigestAlgorithmSHA256) OIDEncryptionAlgorithmRSA)
               vendorCACert vendorCAPriv = Inr sm3
         \<and> Finish lib sm3 = Inr out))
   \<and> SerialNumber (OV (newVoucher tm currentTime serial pdcPem)) = serial
   \<and> (VerifyAndUnmarshal lib inp certPool = Inr ov \<longleftrightarrow>
        inp \<noteq> []
        \<and> (\<exists>p7. Parse lib inp = Inr p7
              \<and> json_Unmarshal (Content lib p7) zeroOwnershipVoucher = Inr ov
              \<and> VerifyWithChain lib p7 certPool = None))
   \<and> (signVerifyContract lib goodPair trusted \<longrightarrow> goodPair vendorCACert vendorCAPriv \<longrightarrow>
        trusted certPool vendorCACert \<longrightarrow>
        (\<exists>signed ov'.
           New lib tm currentTime serial pdcPem vendorCACert vendorCAPriv = Inr signed
           \<and> VerifyAndUnmarshal lib signed certPool = Inr ov'
           \<and> SerialNumber (OV ov') = replaceInvalid serial
           \<and> (SerialNumber (OV ov') = [] \<longleftrightarrow> serial = [])))"
proof (intro conjI impI)
  show "New lib tm currentTime serial pdcPem vendorCACert vendorCAPriv = Inr out \<longleftrightarrow>
      (\<exists>ovBytes sm sm3.
         json_Marshal (newVoucher tm currentTime serial pdcPem) = Inr ovBytes
         \<and> NewSignedData lib ovBytes = Inr sm
         \<and> AddSigner lib (SetEncryptionAlgorithm lib
               (SetDigestAlgorithm lib sm OIDDigestAlgorithmSHA256) OIDEncryptionAlgorithmRSA)
               vendorCACert vendorCAPriv = Inr sm3
         \<and> Finish lib sm3 = Inr out)"
    by (rule New_Inr_iff)
next
  show "SerialNumber (OV (newVoucher tm currentTime serial pdcPem)) = serial" by simp
next
  show "VerifyAndUnmarshal lib inp certPool = Inr ov \<longleftrightarrow>
        inp \<noteq> []
        \<and> (\<exists>p7. Parse lib inp = Inr p7
              \<and> json_Unmarshal (Content lib p7) zeroOwnershipVoucher = Inr ov
              \<and> VerifyWithChain lib p7 certPool = None)"
    by (rule VerifyAndUnmarshal_Inr_iff)
next
  assume "signVerifyContract lib goodPair trusted" and "goodPair vendorCACert vendorCAPriv"
    and "trusted certPool vendorCACert"
  from sign_then_verify [OF this, of tm currentTime serial pdcPem]
  obtain signed where
    n: "New lib tm currentTime serial pdcPem vendorCACert vendorCAPriv = Inr signed"
    and v: "VerifyAndUnmarshal lib signed certPool
              = Inr (readBack (newVoucher tm currentTime serial pdcPem))"
    by blast
  have s: "SerialNumber (OV (readBack (newVoucher tm currentTime serial pdcPem)))
             = replaceInvalid serial"
    by simp
  from n v s
  show "\<exists>signed ov'.
           New lib tm currentTime serial pdcPem vendorCACert vendorCAPriv = Inr signed
           \<and> VerifyAndUnmarshal lib signed certPool = Inr ov'
           \<and> SerialNumber (OV ov') = replaceInvalid serial
           \<and> (SerialNumber (OV ov') = [] \<longleftrightarrow> serial = [])"
    using replaceInvalid_Nil_iff [of serial] by metis
qed

theorem serial_is_the_callers_witness:
  "signVerifyContract plainEnvelopes matchingPair inPool \<and> matchingPair 7 7 \<and> inPool [7] 7
   \<and> (\<exists>signed ov'.
         New plainEnvelopes plainClock 0 [] ''MIIB'' 7 7 = Inr signed
         \<and> VerifyAndUnmarshal plainEnvelopes signed [7] = Inr ov'
         \<and> SerialNumber (OV ov') = [])
   \<and> (\<exists>signed ov'.
         New plainEnvelopes plainClock 0 ''123A'' ''MIIB'' 7 7 = Inr signed
         \<and> VerifyAndUnmarshal plainEnvelopes signed [7] = Inr ov'
         \<and> SerialNumber (OV ov') \<noteq> [])"
proof -
  have p: "matchingPair 7 7" by (simp add: matchingPair_def)
  have t: "inPool [7] 7" by (simp add: inPool_def)
  note a = serial_is_the_callers [where lib = plainEnvelopes and tm = plainClock
      and currentTime = 0 and serial = "[]" and pdcPem = "''MIIB''" and vendorCACert = 7
      and vendorCAPriv = 7 and out = "[]" and inp = "[]" and certPool = "[7]"
      and ov = zeroOwnershipVoucher and goodPair = matchingPair and trusted = inPool]
  note b = serial_is_the_callers [where lib = plainEnvelopes and tm = plainClock
      and currentTime = 0 and serial = "''123A''" and pdcPem = "''MIIB''" and vendorCACert = 7
      and vendorCAPriv = 7 and out = "[]" and inp = "[]" and certPool = "[7]"
      and ov = zeroOwnershipVoucher and goodPair = matchingPair and trusted = inPool]
  have 1: "\<exists>signed ov'.
         New plainEnvelopes plainClock 0 [] ''MIIB'' 7 7 = Inr signed
         \<and> VerifyAndUnmarshal plainEnvelopes signed [7] = Inr ov'
         \<and> SerialNumber (OV ov') = []"
    using a plainEnvelopes_contract p t by blast
  have 2: "\<exists>signed ov'.
         New plainEnvelopes plainClock 0 ''123A'' ''MIIB'' 7 7 = Inr signed
         \<and> VerifyAndUnmarshal plainEnvelopes signed [7] = Inr ov'
         \<and> SerialNumber (OV ov') \<noteq> []"
    using b plainEnvelopes_contract p t by blast
  from plainEnvelopes_contract p t 1 2 show ?thesis by blast
qed

subsection \<open>Signing and verifying together\<close>

text \<open>
  C2. A voucher whose strings are valid UTF-8 comes back unchanged from
  \<open>json.Unmarshal\<close> of its \<open>json.Marshal\<close>, whatever the destination held before.
\<close>

theorem codec_roundtrip:
  assumes "validClaims C"
  shows "\<exists>bs. json_Marshal C = Inr bs \<and> json_Unmarshal bs d = Inr C"
proof -
  obtain bs where bs: "json_Marshal C = Inr bs" by (simp add: json_Marshal_def)
  have "readBack C = C"
    using assms by (intro readBack_valid) (simp_all add: validClaims_def)
  with Unmarshal_Marshal [OF bs, of d] bs show ?thesis by simp
qed

theorem codec_roundtrip_witness:
  "validClaims sampleClaims
   \<and> (\<exists>bs. json_Marshal sampleClaims = Inr bs
         \<and> json_Unmarshal bs zeroOwnershipVoucher = Inr sampleClaims)"
proof -
  have v: "validClaims sampleClaims"
    by (simp add: validClaims_def sampleClaims_def DecodeRune_def RuneError_def)
  from v codec_roundtrip [OF v, of zeroOwnershipVoucher] show ?thesis by simp
qed

text \<open>
  C1, as the spec states it: for every serial number, verification of what \<open>New\<close> signed
  returns the serial that was signed. A Go string may hold bytes that are not UTF-8,
  and \<open>json.Marshal\<close> writes each of them as U+FFFD: the serial of one byte 0xFF comes
  back as the three bytes of U+FFFD.
\<close>

theorem serial_with_invalid_bytes_counterexample:
  "signVerifyContract plainEnvelopes matchingPair inPool
   \<and> matchingPair 7 7 \<and> inPool [7] 7
   \<and> New plainEnvelopes plainClock 0 [CHR 0xFF] ''MIIB'' 7 7 = Inr invalidSerialEnvelope
   \<and> VerifyAndUnmarshal plainEnvelopes invalidSerialEnvelope [7]
       = Inr (newVoucher plainClock 0 [CHR 0xEF, CHR 0xBF, CHR 0xBD] ''MIIB'')
   \<and> SerialNumber (OV (newVoucher plainClock 0 [CHR 0xEF, CHR 0xBF, CHR 0xBD] ''MIIB''))
       \<noteq> [CHR 0xFF]"
proof -
  have e: "invalidSerialEnvelope = [CHR 0x01, CHR 0x07] @ drop 2 invalidSerialEnvelope"
    by (simp add: invalidSerialEnvelope_def)
  have n: "New plainEnvelopes plainClock 0 [CHR 0xFF] ''MIIB'' 7 7 = Inr invalidSerialEnvelope"
    by (subst e) (simp add: New_def Marshal_invalidSerial char_of_small)
  have u: "json_Unmarshal (drop 2 invalidSerialEnvelope) zeroOwnershipVoucher
             = Inr (newVoucher plainClock 0 [CHR 0xEF, CHR 0xBF, CHR 0xBD] ''MIIB'')"
    using Unmarshal_Marshal [OF Marshal_invalidSerial] readBack_invalidSerial by simp
  have v: "VerifyAndUnmarshal plainEnvelopes invalidSerialEnvelope [7]
             = Inr (newVoucher plainClock 0 [CHR 0xEF, CHR 0xBF, CHR 0xBD] ''MIIB'')"
    by (subst e) (simp add: VerifyAndUnmarshal_def u)
  from plainEnvelopes_contract n v show ?thesis
    by (simp add: matchingPair_def inPool_def)
qed

text \<open>
  C1, amended. With a signed-data library that keeps its contract, a vendor key pair
  that belongs together and a pool that trusts the vendor's certificate, \<open>New\<close> succeeds
  for every serial and every PEM text, verification of its output succeeds, and the
  voucher returned carries the serial with every invalid byte replaced by U+FFFD: the
  serial that was signed whenever that is valid UTF-8.
\<close>

theorem sign_verify_agreement:
  assumes lib: "signVerifyContract lib goodPair trusted"
    and pair: "goodPair vendorCACert vendorCAPriv"
    and pool: "trusted certPool vendorCACert"
  shows "\<exists>signed ov. New lib tm currentTime serial pdcPem vendorCACert vendorCAPriv = Inr signed
           \<and> VerifyAndUnmarshal lib signed certPool = Inr ov
           \<and> SerialNumber (OV ov) = replaceInvalid serial
           \<and> (ValidString serial \<longrightarrow> SerialNumber (OV ov) = serial)"
proof -
  from sign_then_verify [OF lib pair pool, of tm currentTime serial pdcPem]
  obtain signed where
    "New lib tm currentTime serial pdcPem vendorCACert vendorCAPriv = Inr signed"
    "VerifyAndUnmarshal lib signed certPool = Inr (readBack (newVoucher tm currentTime serial pdcPem))"
    by blast
  moreover have "SerialNumber (OV (readBack (newVoucher tm currentTime serial pdcPem)))
                   = replaceInvalid serial"
    by simp
  ultimately show ?thesis by (auto simp: replaceInvalid_valid)
qed

theorem sign_verify_agreement_witness:
  "signVerifyContract plainEnvelopes matchingPair inPool
   \<and> matchingPair 7 7 \<and> inPool [3, 7] 7 \<and> ValidString ''123A''
   \<and> (\<exists>signed ov.
         New plainEnvelopes plainClock 0 ''123A'' (pemEncode [''MIIB'', ''xx=='']) 7 7 = Inr signed
         \<and> VerifyAndUnmarshal plainEnvelopes signed [3, 7] = Inr ov
         \<and> SerialNumber (OV ov) = ''123A'')"
proof -
  have p: "matchingPair 7 7" by (simp add: matchingPair_def)
  have t: "inPool [3, 7] 7" by (simp add: inPool_def)
  have s: "ValidString ''123A''" by (simp add: DecodeRune_def RuneError_def)
  from plainEnvelopes_contract p t s
    sign_verify_agreement [OF plainEnvelopes_contract p t, of plainClock 0 "''123A''"
      "pemEncode [''MIIB'', ''xx=='']"]
  show ?thesis by auto
qed

subsection \<open>Assembly of the security artifacts\<close>

text \<open>
  C9, as the spec states it: whenever the certificate and the key of the TLS pair do not
  match, assembly fails with the TLS identity error. The code reads the three key pairs
  and the vouchers first and returns the first error it meets: with a mismatched pair
  and no voucher file, the error is that no voucher was found.
\<close>

theorem assembly_error_order_counterexample:
  "readKeypair (plainDir mismatchedNoOVs) ''pdc'' = Inr \<lparr>Cert = ''cert'', Key = ''another key''\<rparr>
   \<and> X509KeyPair (plainDir mismatchedNoOVs) ''cert'' ''another key''
       = Inl ''private key does not match public key''
   \<and> parseSecurityArtifacts (plainDir mismatchedNoOVs) = Inl FoundNoOVs"
  by (simp add: parseSecurityArtifacts_def readKeypair_mismatchedNoOVs readOVs_mismatchedNoOVs)

text \<open>
  C9, amended. Assembly reads the key pairs \<open>oc\<close>, \<open>pdc\<close> and \<open>vendorca\<close> and the
  vouchers, in this order, and returns the error of the first read that fails. When all
  four succeed it makes the TLS identity with \<open>tls.X509KeyPair\<close> from the certificate and
  the key of the pair \<open>pdc\<close>: when that fails the result is the TLS identity error, else
  the aggregate with that identity. So whenever the certificate and the key of \<open>pdc\<close>
  do not match, assembly returns an error and no aggregate.
\<close>

theorem assembly_tls_identity:
  "(readKeypair e ''oc'' = Inl err \<longrightarrow> parseSecurityArtifacts e = Inl err)
   \<and> (readKeypair e ''oc'' = Inr oc \<longrightarrow> readKeypair e ''pdc'' = Inl err \<longrightarrow>
        parseSecurityArtifacts e = Inl err)
   \<and> (readKeypair e ''oc'' = Inr oc \<longrightarrow> readKeypair e ''pdc'' = Inr pdc \<longrightarrow>
        readKeypair e ''vendorca'' = Inl err \<longrightarrow> parseSecurityArtifacts e = Inl err)
   \<and> (readKeypair e ''oc'' = Inr oc \<longrightarrow> readKeypair e ''pdc'' = Inr pdc \<longrightarrow>
        readKeypair e ''vendorca'' = Inr vendorCA \<longrightarrow> readOVs e = Inl err \<longrightarrow>
        parseSecurityArtifacts e = Inl err)
   \<and> (readKeypair e ''oc'' = Inr oc \<longrightarrow> readKeypair e ''pdc'' = Inr pdc \<longrightarrow>
        readKeypair e ''vendorca'' = Inr vendorCA \<longrightarrow> readOVs e = Inr ovs \<longrightarrow>
        X509KeyPair e (Cert pdc) (Key pdc) = Inl terr \<longrightarrow>
        parseSecurityArtifacts e = Inl (UnableToGenerateTLS terr))
   \<and> (readKeypair e ''oc'' = Inr oc \<longrightarrow> readKeypair e ''pdc'' = Inr pdc \<longrightarrow>
        readKeypair e ''vendorca'' = Inr vendorCA \<longrightarrow> readOVs e = Inr ovs \<longrightarrow>
        X509KeyPair e (Cert pdc) (Key pdc) = Inr tlsCert \<longrightarrow>
        parseSecurityArtifacts e
          = Inr \<lparr>OC = oc, PDC = pdc, VendorCA = vendorCA, OVs = ovs, TLSKeypair = tlsCert\<rparr>)
   \<and> ((\<forall>kp. readKeypair e ''pdc'' = Inr kp \<longrightarrow> isl (X509KeyPair e (Cert kp) (Key kp)))
        \<longrightarrow> isl (parseSecurityArtifacts e))"
proof (intro conjI impI)
  assume "\<forall>kp. readKeypair e ''pdc'' = Inr kp \<longrightarrow> isl (X509KeyPair e (Cert kp) (Key kp))"
  then show "isl (parseSecurityArtifacts e)"
    by (auto simp: parseSecurityArtifacts_def generateServerTlsCert_def isl_def
        split: sum.splits)
qed (simp_all add: parseSecurityArtifacts_def generateServerTlsCert_def)

theorem assembly_tls_identity_witness:
  "readKeypair (plainDir []) ''oc'' = Inl (UnableToReadCert ''oc'' ''no such file'')
   \<and> parseSecurityArtifacts (plainDir []) = Inl (UnableToReadCert ''oc'' ''no such file'')
   \<and> readKeypair (plainDir onlyOC) ''pdc'' = Inl (UnableToReadCert ''pdc'' ''no such file'')
   \<and> parseSecurityArtifacts (plainDir onlyOC) = Inl (UnableToReadCert ''pdc'' ''no such file'')
   \<and> readKeypair (plainDir ocAndPdc) ''vendorca''
       = Inl (UnableToReadCert ''vendorca'' ''no such file'')
   \<and> parseSecurityArtifacts (plainDir ocAndPdc)
       = Inl (UnableToReadCert ''vendorca'' ''no such file'')
   \<and> readOVs (plainDir mismatchedNoOVs) = Inl FoundNoOVs
   \<and> isl (X509KeyPair (plainDir mismatchedNoOVs) ''cert'' ''another key'')
   \<and> parseSecurityArtifacts (plainDir mismatchedNoOVs) = Inl FoundNoOVs
   \<and> readKeypair (plainDir mismatchedOneOV) ''pdc'' = Inr \<lparr>Cert = ''cert'', Key = ''another key''\<rparr>
   \<and> readOVs (plainDir mismatchedOneOV) = Inr [''123A'' \<mapsto> ''voucher'']
   \<and> isl (X509KeyPair (plainDir mismatchedOneOV) ''cert'' ''another key'')
   \<and> isl (parseSecurityArtifacts (plainDir mismatchedOneOV))
   \<and> parseSecurityArtifacts (plainDir mismatchedOneOV)
       = Inl (UnableToGenerateTLS ''private key does not match public key'')
   \<and> X509KeyPair (plainDir matchingOneOV) ''cert'' ''key'' = Inr (''cert'', ''key'')
   \<and> parseSecurityArtifacts (plainDir matchingOneOV)
       = Inr \<lparr>OC = \<lparr>Cert = ''cert'', Key = ''key''\<rparr>, PDC = \<lparr>Cert = ''cert'', Key = ''key''\<rparr>,
              VendorCA = \<lparr>Cert = ''cert'', Key = ''key''\<rparr>, OVs = [''123A'' \<mapsto> ''voucher''],
              TLSKeypair = (''cert'', ''key'')\<rparr>"
proof -
  let ?kp = "\<lparr>Cert = ''cert'', Key = ''key''\<rparr>"
  let ?bad = "\<lparr>Cert = ''cert'', Key = ''another key''\<rparr>"
  let ?ovs = "[''123A'' \<mapsto> ''voucher'']"
  let ?msg = "''private key does not match public key''"
  let ?nf = "\<lambda>n. UnableToReadCert n ''no such file''"
  note i1 = assembly_tls_identity [where e = "plainDir []" and err = "?nf ''oc''" and oc = ?kp
      and pdc = ?bad and vendorCA = ?kp and ovs = ?ovs and terr = ?msg
      and tlsCert = "(''cert'', ''key'')"]
  note i2 = assembly_tls_identity [where e = "plainDir onlyOC" and err = "?nf ''pdc''" and oc = ?kp
      and pdc = ?bad and vendorCA = ?kp and ovs = ?ovs and terr = ?msg
      and tlsCert = "(''cert'', ''key'')"]
  note i3 = assembly_tls_identity [where e = "plainDir ocAndPdc" and err = "?nf ''vendorca''"
      and oc = ?kp and pdc = ?bad and vendorCA = ?kp and ovs = ?ovs and terr = ?msg
      and tlsCert = "(''cert'', ''key'')"]
  note i4 = assembly_tls_identity [where e = "plainDir mismatchedNoOVs" and err = FoundNoOVs
      and oc = ?kp and pdc = ?bad and vendorCA = ?kp and ovs = ?ovs and terr = ?msg
      and tlsCert = "(''cert'', ''key'')"]
  note i5 = assembly_tls_identity [where e = "plainDir mismatchedOneOV" and err = FoundNoOVs
      and oc = ?kp and pdc = ?bad and vendorCA = ?kp and ovs = ?ovs and terr = ?msg
      and tlsCert = "(''cert'', ''key'')"]
  note i6 = assembly_tls_identity [where e = "plainDir matchingOneOV" and err = FoundNoOVs
      and oc = ?kp and pdc = ?kp and vendorCA = ?kp and ovs = ?ovs and terr = ?msg
      and tlsCert = "(''cert'', ''key'')"]
  have x5: "X509KeyPair (plainDir mismatchedOneOV) (Cert ?bad) (Key ?bad) = Inl ?msg" by simp
  have x6: "X509KeyPair (plainDir matchingOneOV) (Cert ?kp) (Key ?kp) = Inr (''cert'', ''key'')"
    by simp
  have h: "\<forall>kp. readKeypair (plainDir mismatchedOneOV) ''pdc'' = Inr kp \<longrightarrow>
             isl (X509KeyPair (plainDir mismatchedOneOV) (Cert kp) (Key kp))"
    by (simp add: readKeypair_mismatchedOneOV)
  have 1: "parseSecurityArtifacts (plainDir []) = Inl (?nf ''oc'')"
    using i1 readKeypair_noFiles by blast
  have 2: "parseSecurityArtifacts (plainDir onlyOC) = Inl (?nf ''pdc'')"
    using i2 readKeypair_onlyOC by blast
  have 3: "parseSecurityArtifacts (plainDir ocAndPdc) = Inl (?nf ''vendorca'')"
    using i3 readKeypair_ocAndPdc by blast
  have 4: "parseSecurityArtifacts (plainDir mismatchedNoOVs) = Inl FoundNoOVs"
    using i4 readKeypair_mismatchedNoOVs readOVs_mismatchedNoOVs by blast
  have 5: "parseSecurityArtifacts (plainDir mismatchedOneOV) = Inl (UnableToGenerateTLS ?msg)"
    using i5 readKeypair_mismatchedOneOV readOVs_mismatchedOneOV x5 by blast
  have 6: "parseSecurityArtifacts (plainDir matchingOneOV)
             = Inr \<lparr>OC = ?kp, PDC = ?kp, VendorCA = ?kp, OVs = ?ovs, TLSKeypair = (''cert'', ''key'')\<rparr>"
    using i6 readKeypair_matchingOneOV readOVs_matchingOneOV x6 by blast
  have 7: "isl (parseSecurityArtifacts (plainDir mismatchedOneOV))" using i5 h by blast
  have y4: "isl (X509KeyPair (plainDir mismatchedNoOVs) ''cert'' ''another key'')" by simp
  have y5: "isl (X509KeyPair (plainDir mismatchedOneOV) ''cert'' ''another key'')" by simp
  have y6: "X509KeyPair (plainDir matchingOneOV) ''cert'' ''key'' = Inr (''cert'', ''key'')" by simp
  from readKeypair_noFiles 1 readKeypair_onlyOC(2) 2 readKeypair_ocAndPdc(3) 3
    readOVs_mismatchedNoOVs y4 4 readKeypair_mismatchedOneOV(2) readOVs_mismatchedOneOV y5 7 5 y6 6
  show ?thesis by blast
qed

end
